theory Spec2Isabelle
  imports Complex_Main
begin

section \<open>Scattered-light correction of UVOT counts images\<close>

text \<open>
  A shallow embedding of \<^verbatim>\<open>uvot_scattered_light.py\<close>: the transform
  \<^verbatim>\<open>calc_counts_image\<close>, the operator dialogue of \<^verbatim>\<open>run_manual\<close>, the
  per-extension bookkeeping of \<^verbatim>\<open>sl_manual\<close> and the batch step \<^verbatim>\<open>sl_apply\<close>.
\<close>

subsection \<open>Exceptions\<close>

text \<open>
  Every \<^verbatim>\<open>raise\<close> the modelled code can reach is a value of this type.
  \<open>ShapeMismatch\<close> stands for the elementwise division of two arrays of unequal
  shape, where NumPy either broadcasts or raises \<^verbatim>\<open>ValueError\<close>; the model goes no
  further into that case. \<open>WrongFormat\<close> is the failure of astropy to parse a file
  of the other kind. \<open>NoObject\<close> marks an address that denotes no array in the store,
  which no Python call can pass. \<open>OtherError\<close> is an exception of a class not listed,
  as a library raises them.
\<close>

datatype error =
    ValueError | TypeError | IndexError | KeyError | EOFError | FileNotFoundError
  | WrongFormat | ShapeMismatch | NoObject | OtherError

subsection \<open>Floating-point numbers\<close>

text \<open>
  The program computes with IEEE floating-point numbers. The model leaves the number
  type \<open>'a\<close> and its operations open: every function below takes the operations as a
  record, so each theorem holds for whatever the arithmetic does (rounding, infinities
  and NaN included). The fields are the operations the source uses:
  \<^verbatim>\<open>x > 0\<close>, \<^verbatim>\<open>x == y\<close>, \<^verbatim>\<open>x - y\<close>, \<^verbatim>\<open>b ** x\<close>, \<^verbatim>\<open>x / y\<close>, \<^verbatim>\<open>x * y\<close>, \<^verbatim>\<open>x + y\<close>,
  \<^verbatim>\<open>np.min\<close> and \<^verbatim>\<open>np.mean\<close> of a one-dimensional array, the value of a decimal
  literal of the source text, and \<^verbatim>\<open>float(s)\<close> (\<open>None\<close> where it raises
  \<^verbatim>\<open>ValueError\<close>). Array elements and scalar parameters share the one type: the
  promotion between NumPy dtypes and the casts on assignment are not modelled.
\<close>

record 'a float_ops =
  fl_gt0 :: "'a \<Rightarrow> bool"
  fl_eq :: "'a \<Rightarrow> 'a \<Rightarrow> bool"
  fl_sub :: "'a \<Rightarrow> 'a \<Rightarrow> 'a"
  fl_pow :: "'a \<Rightarrow> 'a \<Rightarrow> 'a"
  fl_div :: "'a \<Rightarrow> 'a \<Rightarrow> 'a"
  fl_mul :: "'a \<Rightarrow> 'a \<Rightarrow> 'a"
  fl_add :: "'a \<Rightarrow> 'a \<Rightarrow> 'a"
  np_min :: "'a list \<Rightarrow> 'a"
  np_mean :: "'a list \<Rightarrow> 'a"
  fl_lit :: "rat \<Rightarrow> 'a"
  fl_parse :: "string \<Rightarrow> 'a option"

subsection \<open>Arrays and the object store\<close>

text \<open>
  A NumPy array is its shape and its elements in row-major order. Arrays are objects:
  a variable holds a reference, and an in-place operation is seen through every
  reference to the same array. The store is the list of all arrays alive; a reference
  is an index into it, and a new array is appended. Every array of the store has its
  own elements: a view that shares its data with another array is not modelled.
\<close>

record 'a ndarray =
  shape :: "nat list"
  elems :: "'a list"

type_synonym 'a store = "'a ndarray list"

definition wf_array :: "'a ndarray \<Rightarrow> bool" where
  "wf_array a \<longleftrightarrow> length (elems a) = prod_list (shape a)"

definition np_where :: "'a float_ops \<Rightarrow> 'a list \<Rightarrow> nat list" where
  \<comment> \<open>\<^verbatim>\<open>np.where(a > 0)\<close>: the positions of the positive elements, in row-major order\<close>
  "np_where ops xs = filter (\<lambda>i. fl_gt0 ops (xs ! i)) [0..<length xs]"

fun put_at :: "'a list \<Rightarrow> nat list \<Rightarrow> 'a list \<Rightarrow> 'a list" where
  "put_at xs (i # is) (v # vs) = put_at (xs[i := v]) is vs"
| "put_at xs _ _ = xs"

definition getitem :: "'a store \<Rightarrow> nat \<Rightarrow> nat list \<Rightarrow> 'a list" where
  \<comment> \<open>\<^verbatim>\<open>a[idx]\<close>: a new one-dimensional array of the elements at the positions \<open>idx\<close>\<close>
  "getitem h a idx = map (\<lambda>i. elems (h ! a) ! i) idx"

definition setitem :: "'a store \<Rightarrow> nat \<Rightarrow> nat list \<Rightarrow> 'a list \<Rightarrow> 'a store" where
  \<comment> \<open>\<^verbatim>\<open>a[idx] = vs\<close>: writes into the array object \<open>a\<close>\<close>
  "setitem h a idx vs = h[a := (h ! a)\<lparr>elems := put_at (elems (h ! a)) idx vs\<rparr>]"

definition inplace :: "'a store \<Rightarrow> nat \<Rightarrow> ('a \<Rightarrow> 'a) \<Rightarrow> 'a store" where
  \<comment> \<open>\<^verbatim>\<open>a -= m\<close>, \<^verbatim>\<open>a *= f\<close>, \<^verbatim>\<open>a += m\<close>: every element of the object \<open>a\<close> is overwritten\<close>
  "inplace h a g = h[a := (h ! a)\<lparr>elems := map g (elems (h ! a))\<rparr>]"

definition new_array :: "'a store \<Rightarrow> 'a ndarray \<Rightarrow> 'a store \<times> nat" where
  "new_array h a = (h @ [a], length h)"

definition truediv :: "'a float_ops \<Rightarrow> 'a store \<Rightarrow> nat \<Rightarrow> nat \<Rightarrow> 'a store \<times> (error + nat)" where
  \<comment> \<open>\<^verbatim>\<open>a / b\<close> for two arrays: a new array, elementwise\<close>
  "truediv ops h a b =
     (if shape (h ! a) = shape (h ! b)
      then (h @ [\<lparr>shape = shape (h ! a),
                  elems = map2 (fl_div ops) (elems (h ! a)) (elems (h ! b))\<rparr>],
            Inr (length h))
      else (h, Inl ShapeMismatch))"

subsection \<open>The transform \<^verbatim>\<open>calc_counts_image\<close>\<close>

text \<open>
  The arguments \<open>sk_array\<close> and \<open>sl_array\<close> are references into the store \<open>h\<close>. The
  result is the store after the call, with the reference to the returned array or the
  exception raised. \<^verbatim>\<open>np.min\<close> of an empty selection raises \<^verbatim>\<open>ValueError\<close>
  before anything is written. The line \<^verbatim>\<open>sl_array = sl_array / np.mean(sl_array[fov])\<close>
  binds the local name to a new array; the three in-place operations after it write
  into that new array.
\<close>

definition subtract_min :: "'a float_ops \<Rightarrow> 'a store \<Rightarrow> nat \<Rightarrow> nat list \<Rightarrow> 'a store" where
  \<comment> \<open>\<^verbatim>\<open>sl_array[fov] -= np.min(sl_array[fov])\<close>\<close>
  "subtract_min ops h sl_array fov =
     setitem h sl_array fov
       (map (\<lambda>x. fl_sub ops x (np_min ops (getitem h sl_array fov))) (getitem h sl_array fov))"

definition exponentiate :: "'a float_ops \<Rightarrow> 'a store \<Rightarrow> nat \<Rightarrow> nat list \<Rightarrow> 'a \<Rightarrow> 'a store" where
  \<comment> \<open>\<^verbatim>\<open>sl_array[fov] = exp_param**sl_array[fov]\<close>\<close>
  "exponentiate ops h sl_array fov exp_param =
     setitem h sl_array fov (map (\<lambda>x. fl_pow ops exp_param x) (getitem h sl_array fov))"

definition normalise :: "'a float_ops \<Rightarrow> 'a store \<Rightarrow> nat \<Rightarrow> nat list \<Rightarrow> 'a store \<times> nat" where
  \<comment> \<open>\<^verbatim>\<open>sl_array / np.mean(sl_array[fov])\<close>: a new array, every element divided\<close>
  "normalise ops h sl_array fov =
     new_array h ((h ! sl_array)
       \<lparr>elems := map (\<lambda>x. fl_div ops x (np_mean ops (getitem h sl_array fov)))
                   (elems (h ! sl_array))\<rparr>)"

definition flatten :: "'a float_ops \<Rightarrow> 'a store \<Rightarrow> nat \<Rightarrow> nat list \<Rightarrow> 'a \<Rightarrow> 'a store" where
  \<comment> \<open>\<^verbatim>\<open>m = np.mean(sl_array[fov]); sl_array -= m; sl_array *= flat_param; sl_array += m\<close>\<close>
  "flatten ops h sl_array fov flat_param =
     (let m = np_mean ops (getitem h sl_array fov);
          h4 = inplace h sl_array (\<lambda>x. fl_sub ops x m);
          h5 = inplace h4 sl_array (\<lambda>x. fl_mul ops x flat_param)
      in inplace h5 sl_array (\<lambda>x. fl_add ops x m))"

definition calc_counts_image ::
  "'a float_ops \<Rightarrow> 'a store \<Rightarrow> nat \<Rightarrow> nat \<Rightarrow> 'a \<Rightarrow> 'a \<Rightarrow> 'a store \<times> (error + nat)" where
  "calc_counts_image ops h sk_array sl_array exp_param flat_param =
     (if sk_array < length h \<and> sl_array < length h then
        let fov = np_where ops (elems (h ! sl_array)) in
        if fov = [] then (h, Inl ValueError)
        else
          let h1 = subtract_min ops h sl_array fov;
              h2 = exponentiate ops h1 sl_array fov exp_param;
              (h3, sl_array') = normalise ops h2 sl_array fov;
              h6 = flatten ops h3 sl_array' fov flat_param
          in truediv ops h6 sk_array sl_array'
      else (h, Inl NoObject))"

definition returned :: "'a store \<times> (error + nat) \<Rightarrow> error + 'a ndarray" where
  \<comment> \<open>the array a call returned, read in the store it left\<close>
  "returned r = (case snd r of Inl e \<Rightarrow> Inl e | Inr p \<Rightarrow> Inr (fst r ! p))"

subsection \<open>The transform as the specification words it\<close>

text \<open>
  Section 4.1 of the specification describes the transform on array values, by the
  field of view \<open>FOV = {positions where S > 0}\<close>. These definitions follow its six
  steps; they are compared with \<open>calc_counts_image\<close> below.
\<close>

definition fov_values :: "'a float_ops \<Rightarrow> 'a list \<Rightarrow> 'a list \<Rightarrow> 'a list" where
  \<comment> \<open>\<open>ys[FOV]\<close>, the field of view being that of the template \<open>S\<close>\<close>
  "fov_values ops S ys = map snd (filter (\<lambda>p. fl_gt0 ops (fst p)) (zip S ys))"

definition on_fov :: "'a float_ops \<Rightarrow> 'a list \<Rightarrow> ('a \<Rightarrow> 'a) \<Rightarrow> 'a list \<Rightarrow> 'a list" where
  \<comment> \<open>\<open>g\<close> applied at the positions of the field of view, the other positions kept\<close>
  "on_fov ops S g ys = map2 (\<lambda>s y. if fl_gt0 ops s then g y else y) S ys"

definition template_shifted :: "'a float_ops \<Rightarrow> 'a list \<Rightarrow> 'a list" where
  \<comment> \<open>step 2: \<open>S[FOV] -= min(S[FOV])\<close>\<close>
  "template_shifted ops S =
     on_fov ops S (\<lambda>x. fl_sub ops x (np_min ops (fov_values ops S S))) S"

definition template_exp :: "'a float_ops \<Rightarrow> 'a list \<Rightarrow> 'a \<Rightarrow> 'a list" where
  \<comment> \<open>step 3: \<open>S[FOV] = e ** S[FOV]\<close>\<close>
  "template_exp ops S e = on_fov ops S (\<lambda>x. fl_pow ops e x) (template_shifted ops S)"

definition template_norm :: "'a float_ops \<Rightarrow> 'a list \<Rightarrow> 'a \<Rightarrow> 'a list" where
  \<comment> \<open>step 4: \<open>S = S / mean(S[FOV])\<close>\<close>
  "template_norm ops S e =
     map (\<lambda>x. fl_div ops x (np_mean ops (fov_values ops S (template_exp ops S e))))
       (template_exp ops S e)"

definition template_flat :: "'a float_ops \<Rightarrow> 'a list \<Rightarrow> 'a \<Rightarrow> 'a \<Rightarrow> 'a list" where
  \<comment> \<open>step 5: \<open>m = mean(S[FOV])\<close>, then subtract \<open>m\<close>, scale by \<open>f\<close>, add \<open>m\<close>\<close>
  "template_flat ops S e f =
     (let m = np_mean ops (fov_values ops S (template_norm ops S e))
      in map (\<lambda>x. fl_add ops (fl_mul ops (fl_sub ops x m) f) m) (template_norm ops S e))"

definition sl_transform_spec ::
  "'a float_ops \<Rightarrow> 'a ndarray \<Rightarrow> 'a ndarray \<Rightarrow> 'a \<Rightarrow> 'a \<Rightarrow> error + 'a ndarray" where
  \<comment> \<open>step 6: \<open>R = C / S\<close> over the full shape; an empty field of view is a fault\<close>
  "sl_transform_spec ops C S e f =
     (if fov_values ops (elems S) (elems S) = [] then Inl ValueError
      else Inr \<lparr>shape = shape C,
                elems = map2 (fl_div ops) (elems C) (template_flat ops (elems S) e f)\<rparr>)"

subsection \<open>The operator dialogue \<^verbatim>\<open>run_manual\<close>\<close>

text \<open>
  The operator's answers are the lines still to be read from standard input;
  \<^verbatim>\<open>input\<close> raises \<^verbatim>\<open>EOFError\<close> when there is none left. The two previews drawn
  before each prompt (lines 267 to 311) do not touch the parameters and are taken to
  complete; the model covers the prompt and its parsing (lines 314 to 328). The result
  is what the call returns or raises, with the lines left unread. The function with
  its previews, which may raise before a line is read, is \<open>run_manual_hdu\<close> below.
\<close>

fun split_on :: "char \<Rightarrow> string \<Rightarrow> string list" where
  \<comment> \<open>\<^verbatim>\<open>s.split(sep)\<close> for a one-character separator\<close>
  "split_on sep [] = [[]]"
| "split_on sep (c # cs) =
     (if c = sep then [] # split_on sep cs
      else (case split_on sep cs of [] \<Rightarrow> [[c]] | t # ts \<Rightarrow> (c # t) # ts))"

definition input_parse :: "string \<Rightarrow> string list" where
  \<comment> \<open>\<^verbatim>\<open>[i for i in input_info.replace(',',' ').split(' ') if i != '']\<close>\<close>
  "input_parse input_info =
     filter (\<lambda>i. i \<noteq> [])
       (split_on (CHR '' '') (map (\<lambda>c. if c = CHR '','' then CHR '' '' else c) input_info))"

fun run_manual ::
  "'a float_ops \<Rightarrow> string list \<Rightarrow> 'a \<Rightarrow> 'a \<Rightarrow> (error + 'a \<times> 'a) \<times> string list" where
  "run_manual ops [] exp_param flat_param = (Inl EOFError, [])"
| "run_manual ops (input_info # rest) exp_param flat_param =
     (if length (input_parse input_info) = 1 then (Inr (exp_param, flat_param), rest)
      else if length (input_parse input_info) = 2 then
        (case fl_parse ops (input_parse input_info ! 0) of
           None \<Rightarrow> (Inl ValueError, rest)
         | Some e \<Rightarrow>
             (case fl_parse ops (input_parse input_info ! 1) of
                None \<Rightarrow> (Inl ValueError, rest)
              | Some f \<Rightarrow> run_manual ops rest e f))
      else run_manual ops rest exp_param flat_param)"

subsection \<open>Files, image stacks and the parameter table\<close>

text \<open>
  An HDU is its header and its data; the header is the list of its cards (the model
  keeps the numeric ones), the data may be absent. A parameter table is the list of its
  rows in order. The world is the file system, the operator's pending input, and the
  sequence of fit-loop calls and file writes made so far.
\<close>

record 'a hdu =
  hdu_header :: "(string \<times> 'a) list"
  hdu_data :: "'a ndarray option"

record 'a row =
  col_tstart :: 'a
  col_exp_param :: 'a
  col_flat_param :: 'a

datatype 'a disk_file = ParamFile "'a row list" | ImageFile "'a hdu list"

datatype 'a event =
    RunManual nat 'a 'a
  | WroteTable string "'a row list"
  | WroteImage string "'a hdu list"

record 'a world =
  w_files :: "string \<Rightarrow> 'a disk_file option"
  w_stdin :: "string list"
  w_trace :: "'a event list"

definition table_read :: "'a world \<Rightarrow> string \<Rightarrow> error + 'a row list" where
  \<comment> \<open>\<^verbatim>\<open>Table.read(path, format='ascii')\<close>\<close>
  "table_read w path =
     (case w_files w path of
        None \<Rightarrow> Inl FileNotFoundError
      | Some (ParamFile t) \<Rightarrow> Inr t
      | Some (ImageFile _) \<Rightarrow> Inl WrongFormat)"

definition fits_open :: "'a world \<Rightarrow> string \<Rightarrow> error + 'a hdu list" where
  \<comment> \<open>\<^verbatim>\<open>fits.open(path)\<close>\<close>
  "fits_open w path =
     (case w_files w path of
        None \<Rightarrow> Inl FileNotFoundError
      | Some (ImageFile hs) \<Rightarrow> Inr hs
      | Some (ParamFile _) \<Rightarrow> Inl WrongFormat)"

definition table_write :: "'a world \<Rightarrow> string \<Rightarrow> 'a row list \<Rightarrow> 'a world" where
  \<comment> \<open>\<^verbatim>\<open>sl_data.write(path, format='ascii', overwrite=True)\<close>\<close>
  "table_write w path t =
     w\<lparr>w_files := (w_files w)(path \<mapsto> ParamFile t),
       w_trace := w_trace w @ [WroteTable path t]\<rparr>"

definition image_write :: "'a world \<Rightarrow> string \<Rightarrow> 'a hdu list \<Rightarrow> 'a world" where
  \<comment> \<open>\<^verbatim>\<open>hdu_new.writeto(path, overwrite=True)\<close>\<close>
  "image_write w path hs =
     w\<lparr>w_files := (w_files w)(path \<mapsto> ImageFile hs),
       w_trace := w_trace w @ [WroteImage path hs]\<rparr>"

definition column_contains :: "'a float_ops \<Rightarrow> 'a \<Rightarrow> 'a row list \<Rightarrow> bool" where
  \<comment> \<open>\<^verbatim>\<open>tstart in sl_data['tstart']\<close>\<close>
  "column_contains ops t sl_data = list_ex (\<lambda>r. fl_eq ops t (col_tstart r)) sl_data"

definition where_tstart :: "'a float_ops \<Rightarrow> 'a \<Rightarrow> 'a row list \<Rightarrow> nat list" where
  \<comment> \<open>\<^verbatim>\<open>np.where(tstart == sl_data['tstart'])[0]\<close>\<close>
  "where_tstart ops t sl_data =
     filter (\<lambda>k. fl_eq ops t (col_tstart (sl_data ! k))) [0..<length sl_data]"

subsection \<open>The whole of \<^verbatim>\<open>run_manual\<close>: previews and dialogue\<close>

text \<open>
  Before every prompt \<^verbatim>\<open>run_manual\<close> draws the smoothed counts image and the
  smoothed corrected image, and any of these steps may raise before a line is read.
  What astropy's \<^verbatim>\<open>convolve\<close> and the plotting libraries do is left open, as three
  functions of the data they are given: the convolution with the Gaussian kernel
  (lines 257 to 259 and 297), the drawing of the original with the display range it
  computes (lines 268 to 289), and the drawing of the corrected image in that range
  (lines 301 to 311). The same record holds what astropy does with table columns: the
  test whether a number is an integer, and the cast to a column's type on assignment.
  Every theorem holds for whatever these functions are.

  The call of \<^verbatim>\<open>calc_counts_image\<close> in the loop (line 293) is given the data of the
  two HDUs, two array objects of their own; the template is written in place, so the
  next pass of the loop sees it as the last call left it.
\<close>

datatype dtype = Int64 | Float64

record 'a env =
  env_convolve :: "'a ndarray option \<Rightarrow> error + 'a ndarray"
  env_plot_original :: "'a hdu \<Rightarrow> 'a \<Rightarrow> 'a \<Rightarrow> error + 'a \<times> 'a"
  env_plot_new :: "'a hdu \<Rightarrow> 'a \<times> 'a \<Rightarrow> error option"
  env_is_int :: "'a \<Rightarrow> bool"
  env_astype :: "dtype \<Rightarrow> 'a \<Rightarrow> 'a"

definition calc_on_hdus ::
  "'a float_ops \<Rightarrow> 'a ndarray option \<Rightarrow> 'a ndarray option \<Rightarrow> 'a \<Rightarrow> 'a \<Rightarrow>
     error + 'a ndarray \<times> 'a ndarray" where
  \<comment> \<open>\<^verbatim>\<open>calc_counts_image(hdu_sk.data, hdu_sl.data, e, f)\<close>: the new image, and the
      template array as the call leaves it\<close>
  "calc_on_hdus ops sk_data sl_data e f =
     (case sl_data of
        None \<Rightarrow> Inl TypeError
      | Some S \<Rightarrow>
          (case sk_data of
             None \<Rightarrow> if np_where ops (elems S) = [] then Inl ValueError else Inl TypeError
           | Some C \<Rightarrow>
               (case calc_counts_image ops [C, S] 0 1 e f of
                  (h, Inl err) \<Rightarrow> Inl err
                | (h, Inr new_image) \<Rightarrow> Inr (h ! new_image, h ! 1))))"

definition preview ::
  "'a float_ops \<Rightarrow> 'a env \<Rightarrow> 'a hdu \<Rightarrow> 'a hdu \<Rightarrow> 'a ndarray option \<Rightarrow> 'a \<Rightarrow> 'a \<Rightarrow>
     error + 'a ndarray option" where
  \<comment> \<open>lines 267 to 311, one pass: the exception raised, or the template data afterwards\<close>
  "preview ops env hdu_sk hdu_sk_smooth sl_data exp_param flat_param =
     (case env_plot_original env hdu_sk_smooth exp_param flat_param of
        Inl err \<Rightarrow> Inl err
      | Inr display_range \<Rightarrow>
          (case calc_on_hdus ops (hdu_data hdu_sk) sl_data exp_param flat_param of
             Inl err \<Rightarrow> Inl err
           | Inr (new_image, sl_after) \<Rightarrow>
               (case env_convolve env (Some new_image) of
                  Inl err \<Rightarrow> Inl err
                | Inr smooth_new \<Rightarrow>
                    (case env_plot_new env (hdu_sk\<lparr>hdu_data := Some smooth_new\<rparr>) display_range of
                       Some err \<Rightarrow> Inl err
                     | None \<Rightarrow> Inr (Some sl_after)))))"

fun fit_loop ::
  "'a float_ops \<Rightarrow> 'a env \<Rightarrow> 'a hdu \<Rightarrow> 'a hdu \<Rightarrow> 'a ndarray option \<Rightarrow> string list \<Rightarrow> 'a \<Rightarrow> 'a \<Rightarrow>
     (error + 'a \<times> 'a) \<times> string list" where
  \<comment> \<open>the \<^verbatim>\<open>while True\<close> loop, lines 265 to 324\<close>
  "fit_loop ops env hdu_sk hdu_sk_smooth sl_data [] exp_param flat_param =
     (case preview ops env hdu_sk hdu_sk_smooth sl_data exp_param flat_param of
        Inl err \<Rightarrow> (Inl err, [])
      | Inr sl_after \<Rightarrow> (Inl EOFError, []))"
| "fit_loop ops env hdu_sk hdu_sk_smooth sl_data (input_info # rest) exp_param flat_param =
     (case preview ops env hdu_sk hdu_sk_smooth sl_data exp_param flat_param of
        Inl err \<Rightarrow> (Inl err, input_info # rest)
      | Inr sl_after \<Rightarrow>
          if length (input_parse input_info) = 1 then (Inr (exp_param, flat_param), rest)
          else if length (input_parse input_info) = 2 then
            (case fl_parse ops (input_parse input_info ! 0) of
               None \<Rightarrow> (Inl ValueError, rest)
             | Some e \<Rightarrow>
                 (case fl_parse ops (input_parse input_info ! 1) of
                    None \<Rightarrow> (Inl ValueError, rest)
                  | Some f \<Rightarrow> fit_loop ops env hdu_sk hdu_sk_smooth sl_after rest e f))
          else fit_loop ops env hdu_sk hdu_sk_smooth sl_after rest exp_param flat_param)"

definition run_manual_hdu ::
  "'a float_ops \<Rightarrow> 'a env \<Rightarrow> 'a hdu \<Rightarrow> 'a hdu \<Rightarrow> string list \<Rightarrow> 'a \<Rightarrow> 'a \<Rightarrow>
     (error + 'a \<times> 'a) \<times> string list" where
  \<comment> \<open>\<^verbatim>\<open>run_manual(hdu_sk, hdu_sl, exp_param, flat_param)\<close>, lines 256 to 328\<close>
  "run_manual_hdu ops env hdu_sk hdu_sl lines exp_param flat_param =
     (case env_convolve env (hdu_data hdu_sk) of
        Inl err \<Rightarrow> (Inl err, lines)
      | Inr smooth \<Rightarrow>
          fit_loop ops env hdu_sk (hdu_sk\<lparr>hdu_data := Some smooth\<rparr>) (hdu_data hdu_sl)
            lines exp_param flat_param)"

definition reaches_prompt ::
  "'a float_ops \<Rightarrow> 'a env \<Rightarrow> 'a hdu \<Rightarrow> 'a hdu \<Rightarrow> 'a \<Rightarrow> 'a \<Rightarrow> bool" where
  \<comment> \<open>the first prompt is reached: nothing raises before the first \<^verbatim>\<open>input\<close>\<close>
  "reaches_prompt ops env hdu_sk hdu_sl exp_param flat_param =
     (case env_convolve env (hdu_data hdu_sk) of
        Inl err \<Rightarrow> False
      | Inr smooth \<Rightarrow>
          (case preview ops env hdu_sk (hdu_sk\<lparr>hdu_data := Some smooth\<rparr>) (hdu_data hdu_sl)
                  exp_param flat_param of
             Inl err \<Rightarrow> False
           | Inr sl_after \<Rightarrow> True))"

definition call_run_manual ::
  "'a float_ops \<Rightarrow> 'a env \<Rightarrow> 'a world \<Rightarrow> nat \<Rightarrow> 'a hdu \<Rightarrow> 'a hdu \<Rightarrow> 'a \<Rightarrow> 'a \<Rightarrow>
     (error + 'a \<times> 'a) \<times> 'a world" where
  \<comment> \<open>the call \<^verbatim>\<open>run_manual(hdu_sk[i], hdu_sl[i], e, f)\<close>, recorded with its seed\<close>
  "call_run_manual ops env w i hdu_sk_i hdu_sl_i e f =
     (let (r, rest) = run_manual_hdu ops env hdu_sk_i hdu_sl_i (w_stdin w) e f
      in (r, w\<lparr>w_stdin := rest, w_trace := w_trace w @ [RunManual i e f]\<rparr>))"

subsection \<open>The table in memory\<close>

text \<open>
  An astropy table has typed columns. \<^verbatim>\<open>Table.read\<close> types a column from the text of
  the file: integer when the column has a value and all its values are integers,
  floating-point otherwise, and every cell of the column is a value of that type (a
  \<open>ParamFile\<close> holds the values as they are written in the file); the table made by
  \<^verbatim>\<open>Table(names=...)\<close> has floating-point columns. A value assigned to a cell or added
  in a row is cast to the type of its column.
\<close>

record 'a table =
  dt_tstart :: dtype
  dt_exp_param :: dtype
  dt_flat_param :: dtype
  tb_rows :: "'a row list"

definition infer_dtype :: "'a env \<Rightarrow> 'a list \<Rightarrow> dtype" where
  "infer_dtype env vals =
     (if vals \<noteq> [] \<and> list_all (env_is_int env) vals then Int64 else Float64)"

definition table_load :: "'a env \<Rightarrow> 'a row list \<Rightarrow> 'a table" where
  \<comment> \<open>the table \<^verbatim>\<open>Table.read\<close> builds from the rows of a file\<close>
  "table_load env rows =
     \<lparr>dt_tstart = infer_dtype env (map col_tstart rows),
      dt_exp_param = infer_dtype env (map col_exp_param rows),
      dt_flat_param = infer_dtype env (map col_flat_param rows),
      tb_rows =
        map (\<lambda>r. \<lparr>col_tstart =
                      env_astype env (infer_dtype env (map col_tstart rows)) (col_tstart r),
                    col_exp_param =
                      env_astype env (infer_dtype env (map col_exp_param rows)) (col_exp_param r),
                    col_flat_param =
                      env_astype env (infer_dtype env (map col_flat_param rows)) (col_flat_param r)\<rparr>)
          rows\<rparr>"

definition new_table :: "'a table" where
  \<comment> \<open>\<^verbatim>\<open>Table(names=('tstart','exp_param','flat_param'))\<close>\<close>
  "new_table = \<lparr>dt_tstart = Float64, dt_exp_param = Float64, dt_flat_param = Float64,
                 tb_rows = []\<rparr>"

definition set_exp_param :: "'a env \<Rightarrow> 'a table \<Rightarrow> nat \<Rightarrow> 'a \<Rightarrow> 'a table" where
  \<comment> \<open>\<^verbatim>\<open>sl_data['exp_param'][ind] = exp_param\<close>\<close>
  "set_exp_param env sl_data ind v =
     sl_data\<lparr>tb_rows := (tb_rows sl_data)
       [ind := (tb_rows sl_data ! ind)
                 \<lparr>col_exp_param := env_astype env (dt_exp_param sl_data) v\<rparr>]\<rparr>"

definition set_flat_param :: "'a env \<Rightarrow> 'a table \<Rightarrow> nat \<Rightarrow> 'a \<Rightarrow> 'a table" where
  \<comment> \<open>\<^verbatim>\<open>sl_data['flat_param'][ind] = flat_param\<close>\<close>
  "set_flat_param env sl_data ind v =
     sl_data\<lparr>tb_rows := (tb_rows sl_data)
       [ind := (tb_rows sl_data ! ind)
                 \<lparr>col_flat_param := env_astype env (dt_flat_param sl_data) v\<rparr>]\<rparr>"

definition add_row :: "'a env \<Rightarrow> 'a table \<Rightarrow> 'a \<Rightarrow> 'a \<Rightarrow> 'a \<Rightarrow> 'a table" where
  \<comment> \<open>\<^verbatim>\<open>sl_data.add_row([tstart, exp_param, flat_param])\<close>\<close>
  "add_row env sl_data t e f =
     sl_data\<lparr>tb_rows := tb_rows sl_data @
       [\<lparr>col_tstart = env_astype env (dt_tstart sl_data) t,
         col_exp_param = env_astype env (dt_exp_param sl_data) e,
         col_flat_param = env_astype env (dt_flat_param sl_data) f\<rparr>]\<rparr>"

definition wf_table :: "'a env \<Rightarrow> 'a table \<Rightarrow> bool" where
  \<comment> \<open>every cell is a value of the type of its column: the cast leaves it as it is\<close>
  "wf_table env sl_data =
     list_all (\<lambda>r. env_astype env (dt_tstart sl_data) (col_tstart r) = col_tstart r
                 \<and> env_astype env (dt_exp_param sl_data) (col_exp_param r) = col_exp_param r
                 \<and> env_astype env (dt_flat_param sl_data) (col_flat_param r) = col_flat_param r)
       (tb_rows sl_data)"

subsection \<open>The orchestrator \<^verbatim>\<open>sl_manual\<close>\<close>

text \<open>
  One pass of the loop body for extension \<open>i\<close>, on the table in memory and the world.
  An exception leaves the table and the world as they were when it was raised.
\<close>

definition sl_manual_ext ::
  "'a float_ops \<Rightarrow> 'a env \<Rightarrow> string \<Rightarrow> bool \<Rightarrow> 'a hdu list \<Rightarrow> 'a hdu list \<Rightarrow> nat \<Rightarrow>
     'a table \<times> 'a world \<Rightarrow> ('a table \<times> 'a world) \<times> error option" where
  "sl_manual_ext ops env sl_file fix_redo hdu_sk hdu_sl i st =
     (let (sl_data, w) = st in
      if length hdu_sk \<le> i then (st, Some IndexError)
      else
        case map_of (hdu_header (hdu_sk ! i)) ''tstart'' of
          None \<Rightarrow> (st, Some KeyError)
        | Some tstart \<Rightarrow>
            if column_contains ops tstart (tb_rows sl_data) \<and> fix_redo then
              (case where_tstart ops tstart (tb_rows sl_data) of
                 [] \<Rightarrow> (st, Some IndexError)
               | ind # _ \<Rightarrow>
                   if length hdu_sl \<le> i then (st, Some IndexError)
                   else
                     (case call_run_manual ops env w i (hdu_sk ! i) (hdu_sl ! i)
                             (col_exp_param (tb_rows sl_data ! ind))
                             (col_flat_param (tb_rows sl_data ! ind)) of
                        (Inl e, w') \<Rightarrow> ((sl_data, w'), Some e)
                      | (Inr (exp_param, flat_param), w') \<Rightarrow>
                          let sl_data1 = set_exp_param env sl_data ind exp_param;
                              sl_data2 = set_flat_param env sl_data1 ind flat_param
                          in ((sl_data2, table_write w' sl_file (tb_rows sl_data2)), None)))
            else if \<not> column_contains ops tstart (tb_rows sl_data) then
              if length hdu_sl \<le> i then (st, Some IndexError)
              else
                (case call_run_manual ops env w i (hdu_sk ! i) (hdu_sl ! i)
                        (fl_lit ops (12 / 10)) (fl_lit ops (4 / 10)) of
                   (Inl e, w') \<Rightarrow> ((sl_data, w'), Some e)
                 | (Inr (exp_param, flat_param), w') \<Rightarrow>
                     let sl_data1 = add_row env sl_data tstart exp_param flat_param
                     in ((sl_data1, table_write w' sl_file (tb_rows sl_data1)), None))
            else (st, None))"

fun sl_manual_loop ::
  "'a float_ops \<Rightarrow> 'a env \<Rightarrow> string \<Rightarrow> bool \<Rightarrow> 'a hdu list \<Rightarrow> 'a hdu list \<Rightarrow> nat list \<Rightarrow>
     'a table \<times> 'a world \<Rightarrow> ('a table \<times> 'a world) \<times> error option" where
  "sl_manual_loop ops env sl_file fix_redo hdu_sk hdu_sl [] st = (st, None)"
| "sl_manual_loop ops env sl_file fix_redo hdu_sk hdu_sl (i # is) st =
     (case sl_manual_ext ops env sl_file fix_redo hdu_sk hdu_sl i st of
        (st', Some e) \<Rightarrow> (st', Some e)
      | (st', None) \<Rightarrow> sl_manual_loop ops env sl_file fix_redo hdu_sk hdu_sl is st')"

definition sl_manual ::
  "'a float_ops \<Rightarrow> 'a env \<Rightarrow> 'a world \<Rightarrow> string \<Rightarrow> string \<Rightarrow> string \<Rightarrow> bool \<Rightarrow>
     'a world \<times> error option" where
  "sl_manual ops env w sk_image sl_image sl_file fix_redo =
     (case (if w_files w sl_file \<noteq> None
            then (case table_read w sl_file of Inl e \<Rightarrow> Inl e | Inr rows \<Rightarrow> Inr (table_load env rows))
            else Inr new_table) of
        Inl e \<Rightarrow> (w, Some e)
      | Inr sl_data \<Rightarrow>
          (case fits_open w sk_image of
             Inl e \<Rightarrow> (w, Some e)
           | Inr hdu_sk \<Rightarrow>
               (case fits_open w sl_image of
                  Inl e \<Rightarrow> (w, Some e)
                | Inr hdu_sl \<Rightarrow>
                    (case sl_manual_loop ops env sl_file fix_redo hdu_sk hdu_sl
                            [1..<length hdu_sk] (sl_data, w) of
                       ((_, w'), r) \<Rightarrow> (w', r)))))"

subsection \<open>The batch step \<^verbatim>\<open>sl_apply\<close>\<close>

text \<open>
  The arrays of an opened stack are objects of their own: the call of the transform on
  the data of two HDUs runs on a store that holds just these two arrays.
\<close>

definition calc_on_data ::
  "'a float_ops \<Rightarrow> 'a ndarray option \<Rightarrow> 'a ndarray option \<Rightarrow> 'a \<Rightarrow> 'a \<Rightarrow> error + 'a ndarray" where
  "calc_on_data ops sk_data sl_data e f =
     (case sl_data of
        None \<Rightarrow> Inl TypeError
      | Some S \<Rightarrow>
          (case sk_data of
             None \<Rightarrow> if np_where ops (elems S) = [] then Inl ValueError else Inl TypeError
           | Some C \<Rightarrow> returned (calc_counts_image ops [C, S] 0 1 e f)))"

function py_replace :: "string \<Rightarrow> string \<Rightarrow> string \<Rightarrow> string" where
  \<comment> \<open>\<^verbatim>\<open>s.replace(old, new)\<close> for a non-empty \<open>old\<close>: every occurrence, left to right\<close>
  "py_replace old new [] = []"
| "py_replace old new (c # cs) =
     (if old \<noteq> [] \<and> take (length old) (c # cs) = old
      then new @ py_replace old new (drop (length old - 1) cs)
      else c # py_replace old new cs)"
  by pat_completeness auto
termination
  by (relation "measure (\<lambda>(old, new, s). length s)") auto

definition str_replace :: "string \<Rightarrow> string \<Rightarrow> string \<Rightarrow> string" where
  \<comment> \<open>\<^verbatim>\<open>s.replace(old, new)\<close>; an empty \<open>old\<close> matches before every character and at the end\<close>
  "str_replace s old new =
     (if old = [] then new @ concat (map (\<lambda>c. c # new) s) else py_replace old new s)"

definition sl_apply_ext ::
  "'a float_ops \<Rightarrow> 'a hdu list \<Rightarrow> 'a hdu list \<Rightarrow> 'a row list \<Rightarrow> nat \<Rightarrow> error + 'a hdu" where
  \<comment> \<open>the loop body for extension \<open>i \<ge> 1\<close>: the HDU appended to the new stack\<close>
  "sl_apply_ext ops hdu_sk hdu_sl sl_data i =
     (if length hdu_sk \<le> i \<or> length hdu_sl \<le> i \<or> length sl_data \<le> i - 1 then Inl IndexError
      else
        case calc_on_data ops (hdu_data (hdu_sk ! i)) (hdu_data (hdu_sl ! i))
               (col_exp_param (sl_data ! (i - 1))) (col_flat_param (sl_data ! (i - 1))) of
          Inl e \<Rightarrow> Inl e
        | Inr new_image \<Rightarrow>
            Inr \<lparr>hdu_header = hdu_header (hdu_sk ! i), hdu_data = Some new_image\<rparr>)"

fun sl_apply_loop ::
  "'a float_ops \<Rightarrow> 'a hdu list \<Rightarrow> 'a hdu list \<Rightarrow> 'a row list \<Rightarrow> nat list \<Rightarrow> 'a hdu list \<Rightarrow>
     error + 'a hdu list" where
  "sl_apply_loop ops hdu_sk hdu_sl sl_data [] hdu_new = Inr hdu_new"
| "sl_apply_loop ops hdu_sk hdu_sl sl_data (i # is) hdu_new =
     (case sl_apply_ext ops hdu_sk hdu_sl sl_data i of
        Inl e \<Rightarrow> Inl e
      | Inr x \<Rightarrow> sl_apply_loop ops hdu_sk hdu_sl sl_data is (hdu_new @ [x]))"

definition sl_apply ::
  "'a float_ops \<Rightarrow> 'a world \<Rightarrow> string \<Rightarrow> string \<Rightarrow> string \<Rightarrow> 'a world \<times> error option" where
  "sl_apply ops w sk_image sl_image sl_file =
     (case table_read w sl_file of
        Inl e \<Rightarrow> (w, Some e)
      | Inr sl_data \<Rightarrow>
          (case fits_open w sk_image of
             Inl e \<Rightarrow> (w, Some e)
           | Inr hdu_sk \<Rightarrow>
               (case fits_open w sl_image of
                  Inl e \<Rightarrow> (w, Some e)
                | Inr hdu_sl \<Rightarrow>
                    (case hdu_sk of
                       [] \<Rightarrow> (w, Some IndexError)
                     | first # _ \<Rightarrow>
                         (case sl_apply_loop ops hdu_sk hdu_sl sl_data [1..<length hdu_sk]
                                 [\<lparr>hdu_header = hdu_header first, hdu_data = hdu_data first\<rparr>] of
                            Inl e \<Rightarrow> (w, Some e)
                          | Inr hdu_new \<Rightarrow>
                              (image_write w
                                 (str_replace sk_image ''_corr.img'' ''_corr_sl.img'') hdu_new,
                               None))))))"

subsection \<open>The parameter store as the specification words it\<close>

fun upsert :: "'a float_ops \<Rightarrow> 'a row list \<Rightarrow> 'a \<Rightarrow> 'a \<Rightarrow> 'a \<Rightarrow> 'a row list" where
  \<comment> \<open>section 4.2: replace exp/flat in place if the start time is present, else append\<close>
  "upsert ops [] t e f = [\<lparr>col_tstart = t, col_exp_param = e, col_flat_param = f\<rparr>]"
| "upsert ops (r # rs) t e f =
     (if fl_eq ops t (col_tstart r) then r\<lparr>col_exp_param := e, col_flat_param := f\<rparr> # rs
      else r # upsert ops rs t e f)"

definition lookup :: "'a float_ops \<Rightarrow> 'a row list \<Rightarrow> 'a \<Rightarrow> 'a row option" where
  \<comment> \<open>section 4.2: the record of a start time, or absent\<close>
  "lookup ops sl_data t = find (\<lambda>r. fl_eq ops t (col_tstart r)) sl_data"

definition seed_params :: "'a float_ops \<Rightarrow> 'a row list \<Rightarrow> 'a \<Rightarrow> 'a \<times> 'a" where
  \<comment> \<open>section 4.2: a refit is seeded with the existing record, else with \<open>(1.2, 0.4)\<close>\<close>
  "seed_params ops sl_data t =
     (case lookup ops sl_data t of
        None \<Rightarrow> (fl_lit ops (12 / 10), fl_lit ops (4 / 10))
      | Some r \<Rightarrow> (col_exp_param r, col_flat_param r))"

definition upsert_cast ::
  "'a float_ops \<Rightarrow> 'a env \<Rightarrow> 'a table \<Rightarrow> 'a \<Rightarrow> 'a \<Rightarrow> 'a \<Rightarrow> 'a row list" where
  \<comment> \<open>the upsert of section 4.2 on a table with typed columns: the record that is stored
      holds the values cast to the types of their columns\<close>
  "upsert_cast ops env sl_data t e f =
     (if column_contains ops t (tb_rows sl_data)
      then upsert ops (tb_rows sl_data) t
             (env_astype env (dt_exp_param sl_data) e) (env_astype env (dt_flat_param sl_data) f)
      else tb_rows sl_data @
             [\<lparr>col_tstart = env_astype env (dt_tstart sl_data) t,
               col_exp_param = env_astype env (dt_exp_param sl_data) e,
               col_flat_param = env_astype env (dt_flat_param sl_data) f\<rparr>])"

definition replace_suffix :: "string \<Rightarrow> string \<Rightarrow> string \<Rightarrow> string" where
  \<comment> \<open>section 4.5: the fixed suffix transformation of the file name\<close>
  "replace_suffix s old new =
     (if length old \<le> length s \<and> drop (length s - length old) s = old
      then take (length s - length old) s @ new else s)"

subsection \<open>An instance: exact arithmetic on the reals\<close>

text \<open>
  The reals with exact operations serve to run the model on concrete inputs. The
  reader of numbers accepts plain decimal literals (an optional sign, digits, an
  optional point and digits), a fragment of what \<^verbatim>\<open>float\<close> accepts.
\<close>

definition digit_of :: "char \<Rightarrow> nat option" where
  "digit_of c =
     map_of [(CHR ''0'', 0), (CHR ''1'', 1), (CHR ''2'', 2), (CHR ''3'', 3), (CHR ''4'', 4),
             (CHR ''5'', 5), (CHR ''6'', 6), (CHR ''7'', 7), (CHR ''8'', 8), (CHR ''9'', 9)] c"

fun digits_val :: "nat \<Rightarrow> string \<Rightarrow> nat option" where
  "digits_val acc [] = Some acc"
| "digits_val acc (c # cs) =
     (case digit_of c of None \<Rightarrow> None | Some d \<Rightarrow> digits_val (10 * acc + d) cs)"

definition parse_decimal :: "string \<Rightarrow> real option" where
  "parse_decimal s =
     (let neg = (s \<noteq> [] \<and> hd s = CHR ''-'');
          body = (if s \<noteq> [] \<and> (hd s = CHR ''-'' \<or> hd s = CHR ''+'') then tl s else s);
          ip = takeWhile (\<lambda>c. c \<noteq> CHR ''.'') body;
          fp = drop 1 (dropWhile (\<lambda>c. c \<noteq> CHR ''.'') body)
      in if ip = [] \<and> fp = [] then None
         else
           case (digits_val 0 ip, digits_val 0 fp) of
             (Some a, Some b) \<Rightarrow>
               Some ((if neg then - 1 else 1) * (real a + real b / 10 ^ length fp))
           | _ \<Rightarrow> None)"

definition real_ops :: "real float_ops" where
  "real_ops = \<lparr>
     fl_gt0 = (\<lambda>x. x > 0),
     fl_eq = (\<lambda>x y. x = y),
     fl_sub = (\<lambda>x y. x - y),
     fl_pow = (\<lambda>b x. if x = 0 then 1 else b powr x),
     fl_div = (\<lambda>x y. x / y),
     fl_mul = (\<lambda>x y. x * y),
     fl_add = (\<lambda>x y. x + y),
     np_min = (\<lambda>xs. fold min (tl xs) (hd xs)),
     np_mean = (\<lambda>xs. sum_list xs / real (length xs)),
     fl_lit = of_rat,
     fl_parse = parse_decimal\<rparr>"


text \<open>
  A display that draws nothing and leaves an image unsmoothed. It refuses what
  \<^verbatim>\<open>convolve\<close> with a two-dimensional kernel refuses: absent data, and data that is
  not two-dimensional.
\<close>

definition quiet_convolve :: "'a ndarray option \<Rightarrow> error + 'a ndarray" where
  "quiet_convolve d =
     (case d of
        None \<Rightarrow> Inl OtherError
      | Some a \<Rightarrow> if length (shape a) = 2 then Inr a else Inl OtherError)"

definition real_trunc :: "real \<Rightarrow> int" where
  \<comment> \<open>the cast of a float to an integer type drops the fraction\<close>
  "real_trunc x = (if 0 \<le> x then \<lfloor>x\<rfloor> else \<lceil>x\<rceil>)"

definition real_env :: "real env" where
  \<comment> \<open>the reals stand for floats: no value is an integer to \<^verbatim>\<open>Table.read\<close>\<close>
  "real_env = \<lparr>
     env_convolve = quiet_convolve,
     env_plot_original = (\<lambda>h e f. Inr (0, 1)),
     env_plot_new = (\<lambda>h r. None),
     env_is_int = (\<lambda>x. False),
     env_astype = (\<lambda>d x. case d of Int64 \<Rightarrow> of_int (real_trunc x) | Float64 \<Rightarrow> x)\<rparr>"







text \<open>A stack of one snapshot, its template, a table of one row, and worlds around them.\<close>

definition ex_sk :: "real hdu list" where
  "ex_sk = [\<lparr>hdu_header = [], hdu_data = None\<rparr>,
            \<lparr>hdu_header = [(''tstart'', 5)],
              hdu_data = Some \<lparr>shape = [3], elems = [1, 1, 1]\<rparr>\<rparr>]"

definition ex_sl :: "real hdu list" where
  "ex_sl = [\<lparr>hdu_header = [], hdu_data = None\<rparr>,
            \<lparr>hdu_header = [(''tstart'', 5)],
              hdu_data = Some \<lparr>shape = [3], elems = [0, 1, 2]\<rparr>\<rparr>]"

definition ex_table :: "real row list" where
  "ex_table = [\<lparr>col_tstart = 5, col_exp_param = 2, col_flat_param = 1 / 2\<rparr>]"

definition ex_disk :: "string \<Rightarrow> real world" where
  "ex_disk sk_image =
     \<lparr>w_files = [sk_image \<mapsto> ImageFile ex_sk, ''sl.img'' \<mapsto> ImageFile ex_sl,
                  ''p.info'' \<mapsto> ParamFile ex_table],
       w_stdin = [], w_trace = []\<rparr>"

text \<open>
  Two-dimensional stacks of one snapshot, with the table and worlds for them; and the
  same with typed numbers, around the hand-written parameter file \<^verbatim>\<open>5 2 0.5\<close>.
\<close>

definition ex2_sk :: "real hdu list" where
  "ex2_sk = [\<lparr>hdu_header = [], hdu_data = None\<rparr>,
             \<lparr>hdu_header = [(''tstart'', 5)],
               hdu_data = Some \<lparr>shape = [2, 2], elems = [1, 1, 1, 1]\<rparr>\<rparr>]"

definition ex2_sl :: "real hdu list" where
  "ex2_sl = [\<lparr>hdu_header = [], hdu_data = None\<rparr>,
             \<lparr>hdu_header = [(''tstart'', 5)],
               hdu_data = Some \<lparr>shape = [2, 2], elems = [0, 1, 2, 1]\<rparr>\<rparr>]"

definition ex2_table :: "real table" where
  "ex2_table = table_load real_env ex_table"

definition ex_world :: "string list \<Rightarrow> real world" where
  "ex_world lines = \<lparr>w_files = Map.empty, w_stdin = lines, w_trace = []\<rparr>"





section \<open>Properties of the transform\<close>

subsection \<open>Selections and writes by position\<close>

lemma put_at_length: "length (put_at xs is vs) = length xs"
  by (induction xs "is" vs rule: put_at.induct) auto

lemma put_at_map_nth:
  "j < length xs \<Longrightarrow> put_at xs is (map g is) ! j = (if j \<in> set is then g j else xs ! j)"
proof (induction "is" arbitrary: xs)
  case Nil
  then show ?case by simp
next
  case (Cons i "is")
  then show ?case by (auto simp: nth_list_update)
qed

lemma zip_by_index:
  "length ys = length xs \<Longrightarrow> zip xs ys = map (\<lambda>i. (xs ! i, ys ! i)) [0..<length xs]"
  by (intro nth_equalityI) auto

lemma gather_fov:
  "length ys = length S \<Longrightarrow> map (\<lambda>i. ys ! i) (np_where ops S) = fov_values ops S ys"
  by (simp add: np_where_def fov_values_def zip_by_index filter_map comp_def)

lemma np_where_empty: "np_where ops S = [] \<longleftrightarrow> fov_values ops S S = []"
  using gather_fov [of S S ops] by (metis map_is_Nil_conv)

lemma scatter_fov:
  assumes "length ys = length S"
  shows "put_at ys (np_where ops S) (map g (map (\<lambda>i. ys ! i) (np_where ops S))) = on_fov ops S g ys"
proof (rule nth_equalityI)
  show "length (put_at ys (np_where ops S) (map g (map (\<lambda>i. ys ! i) (np_where ops S)))) = length (on_fov ops S g ys)"
    using assms by (simp add: put_at_length on_fov_def)
next
  fix j assume "j < length (put_at ys (np_where ops S) (map g (map (\<lambda>i. ys ! i) (np_where ops S))))"
  then have j: "j < length ys" by (simp add: put_at_length)
  have "put_at ys (np_where ops S) (map (\<lambda>i. g (ys ! i)) (np_where ops S)) ! j
      = (if j \<in> set (np_where ops S) then g (ys ! j) else ys ! j)"
    using j by (rule put_at_map_nth)
  moreover have "j \<in> set (np_where ops S) \<longleftrightarrow> fl_gt0 ops (S ! j)"
    using j assms by (simp add: np_where_def)
  ultimately show "put_at ys (np_where ops S) (map g (map (\<lambda>i. ys ! i) (np_where ops S))) ! j = on_fov ops S g ys ! j"
    using j assms by (simp add: on_fov_def comp_def)
qed

lemma on_fov_length: "length ys = length S \<Longrightarrow> length (on_fov ops S g ys) = length S"
  by (simp add: on_fov_def)

lemma template_shifted_length: "length (template_shifted ops S) = length S"
  by (simp add: template_shifted_def on_fov_def)

lemma template_exp_length: "length (template_exp ops S e) = length S"
  by (simp add: template_exp_def on_fov_def template_shifted_length)

lemma template_norm_length: "length (template_norm ops S e) = length S"
  by (simp add: template_norm_def template_exp_length)

lemma template_flat_length: "length (template_flat ops S e f) = length S"
  by (simp add: template_flat_def Let_def template_norm_length)

lemma setitem_length: "length (setitem h a idx vs) = length h"
  by (simp add: setitem_def)

lemma setitem_fov:
  assumes "length (elems (h ! a)) = length S"
  shows "setitem h a (np_where ops S) (map g (fov_values ops S (elems (h ! a))))
       = h[a := (h ! a)\<lparr>elems := on_fov ops S g (elems (h ! a))\<rparr>]"
  using scatter_fov [OF assms, of ops g] gather_fov [OF assms, of ops]
  by (simp add: setitem_def)

lemma getitem_fov:
  "length (elems (h ! a)) = length S \<Longrightarrow>
   getitem h a (np_where ops S) = fov_values ops S (elems (h ! a))"
  by (simp add: getitem_def gather_fov)

lemma subtract_min_fov:
  assumes "length (elems (h ! a)) = length S"
  shows "subtract_min ops h a (np_where ops S)
       = h[a := (h ! a)\<lparr>elems :=
            on_fov ops S (\<lambda>x. fl_sub ops x (np_min ops (fov_values ops S (elems (h ! a)))))
              (elems (h ! a))\<rparr>]"
  unfolding subtract_min_def getitem_fov [OF assms] by (rule setitem_fov [OF assms])

lemma exponentiate_fov:
  assumes "length (elems (h ! a)) = length S"
  shows "exponentiate ops h a (np_where ops S) e
       = h[a := (h ! a)\<lparr>elems := on_fov ops S (\<lambda>x. fl_pow ops e x) (elems (h ! a))\<rparr>]"
  unfolding exponentiate_def getitem_fov [OF assms] by (rule setitem_fov [OF assms])

lemma normalise_fov:
  assumes "length (elems (h ! a)) = length S"
  shows "normalise ops h a (np_where ops S)
       = (h @ [(h ! a)\<lparr>elems :=
             map (\<lambda>x. fl_div ops x (np_mean ops (fov_values ops S (elems (h ! a)))))
               (elems (h ! a))\<rparr>], length h)"
  unfolding normalise_def getitem_fov [OF assms] by (simp add: new_array_def)

lemma flatten_fov:
  assumes "length (elems (h ! a)) = length S" and "a < length h"
  shows "flatten ops h a (np_where ops S) f
       = h[a := (h ! a)\<lparr>elems :=
            map (\<lambda>x. fl_add ops (fl_mul ops (fl_sub ops x
                    (np_mean ops (fov_values ops S (elems (h ! a))))) f)
                    (np_mean ops (fov_values ops S (elems (h ! a)))))
              (elems (h ! a))\<rparr>]"
  using assms(2)
  unfolding flatten_def getitem_fov [OF assms(1)] Let_def
  by (simp add: inplace_def comp_def)

lemma calc_closed_form:
  assumes sk: "sk < length h" and sl: "sl < length h"
  shows "calc_counts_image ops h sk sl e f =
     (if fov_values ops (elems (h ! sl)) (elems (h ! sl)) = [] then (h, Inl ValueError)
      else truediv ops
             (h[sl := (h ! sl)\<lparr>elems := template_exp ops (elems (h ! sl)) e\<rparr>]
                @ [(h ! sl)\<lparr>elems := template_flat ops (elems (h ! sl)) e f\<rparr>])
             sk (length h))"
proof (cases "fov_values ops (elems (h ! sl)) (elems (h ! sl)) = []")
  case True
  then show ?thesis
    using sk sl by (simp add: calc_counts_image_def np_where_empty)
next
  case False
  define S where "S = elems (h ! sl)"
  define fov where "fov = np_where ops S"
  define h1 where "h1 = subtract_min ops h sl fov"
  define h2 where "h2 = exponentiate ops h1 sl fov e"
  define h3 where "h3 = fst (normalise ops h2 sl fov)"
  define h6 where "h6 = flatten ops h3 (length h) fov f"
  have e1: "h1 = h[sl := (h ! sl)\<lparr>elems := template_shifted ops S\<rparr>]"
    unfolding h1_def fov_def
    by (simp add: subtract_min_fov S_def template_shifted_def)
  have e1': "elems (h1 ! sl) = template_shifted ops S"
    using sl by (simp add: e1)
  have e2: "h2 = h[sl := (h ! sl)\<lparr>elems := template_exp ops S e\<rparr>]"
    unfolding h2_def fov_def
    using sl by (simp add: exponentiate_fov e1' template_shifted_length template_exp_def)
      (simp add: e1)
  have e2': "elems (h2 ! sl) = template_exp ops S e" and l2: "length h2 = length h"
    using sl by (simp_all add: e2)
  have n3: "normalise ops h2 sl fov = (h2 @ [(h ! sl)\<lparr>elems := template_norm ops S e\<rparr>], length h)"
    unfolding fov_def
    using sl by (simp add: normalise_fov e2' template_exp_length template_norm_def l2)
      (simp add: e2)
  have e3: "h3 = h2 @ [(h ! sl)\<lparr>elems := template_norm ops S e\<rparr>]"
    by (simp add: h3_def n3)
  have e3': "elems (h3 ! length h) = template_norm ops S e"
    by (simp add: e3 l2 [symmetric])
  have e6: "h6 = h2 @ [(h ! sl)\<lparr>elems := template_flat ops S e f\<rparr>]"
  proof -
    have len: "length (elems (h3 ! length h)) = length S"
      by (simp add: e3' template_norm_length)
    have lt: "length h < length h3"
      by (simp add: e3 l2)
    show ?thesis
      unfolding h6_def fov_def flatten_fov [OF len lt] e3'
      by (simp add: e3 l2 [symmetric] template_flat_def Let_def)
  qed
  have e6': "flatten ops (h2 @ [(h ! sl)\<lparr>elems := template_norm ops S e\<rparr>]) (length h) fov f = h6"
    by (simp add: h6_def e3)
  have fne: "fov \<noteq> []"
    using False by (simp add: fov_def S_def np_where_empty)
  have "calc_counts_image ops h sk sl e f = truediv ops h6 sk (length h)"
    unfolding calc_counts_image_def
    using sk sl fne
    by (simp add: Let_def n3 e6' flip: S_def fov_def h1_def h2_def)
  then show ?thesis
    using False by (simp add: e6 e2 S_def)
qed


subsection \<open>The store and the value a call leaves\<close>

lemma calc_no_object:
  "\<not> (sk < length h \<and> sl < length h) \<Longrightarrow> calc_counts_image ops h sk sl e f = (h, Inl NoObject)"
  by (auto simp: calc_counts_image_def)

lemma returned_calc:
  assumes "sk < length h" and "sl < length h"
  shows "returned (calc_counts_image ops h sk sl e f) =
     (if fov_values ops (elems (h ! sl)) (elems (h ! sl)) = [] then Inl ValueError
      else
        let C = (if sk = sl then (h ! sl)\<lparr>elems := template_exp ops (elems (h ! sl)) e\<rparr> else h ! sk)
        in if shape C = shape (h ! sl)
           then Inr \<lparr>shape = shape C,
                     elems = map2 (fl_div ops) (elems C) (template_flat ops (elems (h ! sl)) e f)\<rparr>
           else Inl ShapeMismatch)"
  using assms
  by (simp add: calc_closed_form returned_def truediv_def Let_def nth_append)

lemma fov_values_same: "fov_values ops S S = filter (fl_gt0 ops) S"
  by (induction S) (auto simp: fov_values_def)

lemma on_fov_map:
  "on_fov ops S g (map k S) = map (\<lambda>x. if fl_gt0 ops x then g (k x) else k x) S"
  by (induction S) (simp_all add: on_fov_def)

lemma template_exp_map:
  "template_exp ops S e =
     map (\<lambda>x. if fl_gt0 ops x
               then fl_pow ops e (fl_sub ops x (np_min ops (filter (fl_gt0 ops) S))) else x) S"
proof -
  have "template_shifted ops S =
      map (\<lambda>x. if fl_gt0 ops x then fl_sub ops x (np_min ops (filter (fl_gt0 ops) S)) else x) S"
    using on_fov_map [of ops S _ "\<lambda>x. x"] by (simp add: template_shifted_def fov_values_same)
  then show ?thesis
    by (simp add: template_exp_def on_fov_map cong: if_cong)
qed

lemma template_exp_no_fov:
  "fov_values ops S S = [] \<Longrightarrow> template_exp ops S e = S"
  unfolding template_exp_map fov_values_same
  by (auto simp: filter_empty_conv intro: map_idI)

lemma store_after_calc:
  assumes "sk < length h" and "sl < length h"
  shows "\<exists>new. fst (calc_counts_image ops h sk sl e f) =
            h[sl := (h ! sl)\<lparr>elems := template_exp ops (elems (h ! sl)) e\<rparr>] @ new"
proof (cases "fov_values ops (elems (h ! sl)) (elems (h ! sl)) = []")
  case True
  then show ?thesis
    using assms by (simp add: calc_closed_form template_exp_no_fov)
next
  case False
  then show ?thesis
    using assms by (simp add: calc_closed_form truediv_def)
qed

text \<open>
  When one array is passed as both arguments, the counts that are divided are the
  template as the two writes by position have left it.
\<close>

lemma calc_counts_image_same_object:
  assumes "a < length h"
  shows "returned (calc_counts_image ops h a a e f) =
     (if fov_values ops (elems (h ! a)) (elems (h ! a)) = [] then Inl ValueError
      else Inr \<lparr>shape = shape (h ! a),
                elems = map2 (fl_div ops) (template_exp ops (elems (h ! a)) e)
                          (template_flat ops (elems (h ! a)) e f)\<rparr>)"
  using assms by (simp add: returned_calc)

section \<open>The claims about the transform\<close>

text \<open>
  Claim C1, as stated, for every counts array and every template array of its shape:
  the call returns what the six steps of the specification compute. It fails for the
  call that passes one array as both: with \<open>[1, 2]\<close> passed twice, \<open>e = 3\<close> and
  \<open>f = 1\<close>, the steps give \<open>[2, 4/3]\<close> and the call returns \<open>[2, 2]\<close>, the counts
  having been overwritten with the template before they are divided.
\<close>

theorem calc_counts_image_aliased_not_spec:
  "returned (calc_counts_image real_ops [\<lparr>shape = [2], elems = [1, 2]\<rparr>] 0 0 3 1)
     = Inr \<lparr>shape = [2], elems = [2, 2]\<rparr>
   \<and> sl_transform_spec real_ops \<lparr>shape = [2], elems = [1, 2]\<rparr> \<lparr>shape = [2], elems = [1, 2]\<rparr> 3 1
     = Inr \<lparr>shape = [2], elems = [2, 4 / 3]\<rparr>
   \<and> returned (calc_counts_image real_ops [\<lparr>shape = [2], elems = [1, 2]\<rparr>] 0 0 3 1)
     \<noteq> sl_transform_spec real_ops ([\<lparr>shape = [2], elems = [1, 2]\<rparr>] ! 0)
          ([\<lparr>shape = [2], elems = [1, 2]\<rparr>] ! 0) 3 1"
  by (simp add: calc_counts_image_same_object sl_transform_spec_def fov_values_def
      template_flat_def template_norm_def template_exp_def template_shifted_def on_fov_def
      real_ops_def)

text \<open>
  Claim C1, amended. For a counts array \<open>C\<close> and a template array \<open>S\<close> of the same
  shape that are two arrays, sharing no data, \<open>calc_counts_image\<close> returns what the
  six steps of the specification compute from the values of \<open>C\<close> and \<open>S\<close>: the field
  of view is where
  \<open>S > 0\<close>; there the minimum is subtracted and the result replaced by \<open>e\<close> to its
  power; all of \<open>S\<close> is divided by the mean over the field of view; with \<open>m\<close> the mean
  after that, \<open>m\<close> is subtracted, the result scaled by \<open>f\<close>, \<open>m\<close> added; and \<open>C / S\<close> is
  returned over the full shape. A template without a positive element makes both
  raise \<^verbatim>\<open>ValueError\<close>.
\<close>

theorem calc_counts_image_refines_spec:
  assumes "sk < length h" and "sl < length h" and "sk \<noteq> sl"
    and "shape (h ! sk) = shape (h ! sl)"
  shows "returned (calc_counts_image ops h sk sl e f) = sl_transform_spec ops (h ! sk) (h ! sl) e f"
  using assms by (simp add: returned_calc sl_transform_spec_def)

theorem calc_counts_image_refines_spec_witness:
  "(0::nat) < length [\<lparr>shape = [3], elems = [1, 1, 1::real]\<rparr>, \<lparr>shape = [3], elems = [0, 1, 2]\<rparr>]
   \<and> returned (calc_counts_image real_ops
         [\<lparr>shape = [3], elems = [1, 1, 1]\<rparr>, \<lparr>shape = [3], elems = [0, 1, 2]\<rparr>] 0 1 3 (1 / 2))
       = Inr \<lparr>shape = [3], elems = [2, 4 / 3, 4 / 5]\<rparr>
   \<and> sl_transform_spec real_ops \<lparr>shape = [3], elems = [1, 1, 1]\<rparr> \<lparr>shape = [3], elems = [0, 1, 2]\<rparr>
         3 (1 / 2) = Inr \<lparr>shape = [3], elems = [2, 4 / 3, 4 / 5]\<rparr>"
  using calc_counts_image_refines_spec [of 0
      "[\<lparr>shape = [3], elems = [1, 1, 1::real]\<rparr>, \<lparr>shape = [3], elems = [0, 1, 2]\<rparr>]" 1
      real_ops 3 "1 / 2"]
  by (simp add: sl_transform_spec_def fov_values_def template_flat_def template_norm_def
      template_exp_def template_shifted_def on_fov_def real_ops_def)

text \<open>
  Claim C6. For well-formed arrays \<open>C\<close> and \<open>S\<close> of the same shape and any parameter
  pair, the array returned by \<open>calc_counts_image\<close> has the shape of \<open>C\<close> (and as many
  elements); an array is returned exactly when the template has a positive element,
  and \<^verbatim>\<open>ValueError\<close> is raised otherwise.
\<close>

theorem calc_counts_image_shape:
  assumes "sk < length h" and "sl < length h"
    and "shape (h ! sk) = shape (h ! sl)" and "wf_array (h ! sk)" and "wf_array (h ! sl)"
  shows "(np_where ops (elems (h ! sl)) \<noteq> [] \<longrightarrow>
            (\<exists>R. returned (calc_counts_image ops h sk sl e f) = Inr R
                 \<and> shape R = shape (h ! sk) \<and> wf_array R))
       \<and> (np_where ops (elems (h ! sl)) = [] \<longrightarrow>
            returned (calc_counts_image ops h sk sl e f) = Inl ValueError)"
  using assms
  by (auto simp: returned_calc np_where_empty Let_def wf_array_def template_flat_length
      template_exp_length)

theorem calc_counts_image_shape_witness:
  "wf_array \<lparr>shape = [3], elems = [1, 1, 1::real]\<rparr> \<and> wf_array \<lparr>shape = [3], elems = [0, 1, 2::real]\<rparr>
   \<and> np_where real_ops [0, 1, 2] \<noteq> []
   \<and> (\<exists>R. returned (calc_counts_image real_ops
         [\<lparr>shape = [3], elems = [1, 1, 1]\<rparr>, \<lparr>shape = [3], elems = [0, 1, 2]\<rparr>] 0 1 3 (1 / 2)) = Inr R
         \<and> shape R = [3] \<and> wf_array R)"
  using calc_counts_image_shape [of 0
      "[\<lparr>shape = [3], elems = [1, 1, 1::real]\<rparr>, \<lparr>shape = [3], elems = [0, 1, 2]\<rparr>]" 1
      real_ops 3 "1 / 2"]
  by (simp add: wf_array_def np_where_def real_ops_def upt_rec)

text \<open>
  Claim C8, as stated, for every invocation: the counts array holds its original
  values after the call. It fails for the call that passes one array object as both
  \<open>sk_array\<close> and \<open>sl_array\<close>: the in-place writes to the template are writes to the
  counts array. With \<open>[1, 2]\<close> passed twice, \<open>e = 3\<close> and \<open>f = 1\<close>, the array holds
  \<open>[1, 3]\<close> afterwards.
\<close>

theorem calc_counts_image_aliased_counts_mutated:
  "fst (calc_counts_image real_ops [\<lparr>shape = [2], elems = [1, 2]\<rparr>] 0 0 3 1) ! 0
     = \<lparr>shape = [2], elems = [1, 3]\<rparr>
   \<and> fst (calc_counts_image real_ops [\<lparr>shape = [2], elems = [1, 2]\<rparr>] 0 0 3 1) ! 0
     \<noteq> [\<lparr>shape = [2], elems = [1, 2]\<rparr>] ! 0"
  by (simp add: calc_closed_form truediv_def fov_values_def template_exp_def
      template_shifted_def on_fov_def real_ops_def)

text \<open>
  Claim C8, amended. For every invocation in which \<open>sk_array\<close> and \<open>sl_array\<close> are
  different arrays, sharing no data, the counts array is never written: it holds its
  original shape and elements after the call, whether the call returns or raises.
\<close>

theorem calc_counts_image_keeps_counts:
  "sk \<noteq> sl \<Longrightarrow> fst (calc_counts_image ops h sk sl e f) ! sk = h ! sk"
proof (cases "sk < length h \<and> sl < length h")
  case True
  assume "sk \<noteq> sl"
  with True store_after_calc [of sk h sl ops e f] show ?thesis
    by (auto simp: nth_append)
next
  case False
  then show ?thesis by (simp add: calc_no_object)
qed

theorem calc_counts_image_keeps_counts_witness:
  "(0::nat) \<noteq> 1 \<and>
   fst (calc_counts_image real_ops
         [\<lparr>shape = [3], elems = [1, 1, 1]\<rparr>, \<lparr>shape = [3], elems = [0, 1, 2]\<rparr>] 0 1 3 (1 / 2)) ! 0
     = \<lparr>shape = [3], elems = [1, 1, 1]\<rparr>"
  using calc_counts_image_keeps_counts [of 0 1 real_ops
      "[\<lparr>shape = [3], elems = [1, 1, 1::real]\<rparr>, \<lparr>shape = [3], elems = [0, 1, 2]\<rparr>]" 3 "1 / 2"]
  by simp

text \<open>
  Claim C9. Calling \<open>calc_counts_image\<close> a second time on the same arguments, after the
  template object has been given back its original contents, returns an array equal
  to the one the first call returned (or raises the same exception).
\<close>

theorem calc_counts_image_deterministic:
  "returned (calc_counts_image ops
       ((fst (calc_counts_image ops h sk sl e f))[sl := h ! sl]) sk sl e f)
     = returned (calc_counts_image ops h sk sl e f)"
proof (cases "sk < length h \<and> sl < length h")
  case True
  then obtain new where new: "fst (calc_counts_image ops h sk sl e f) =
      h[sl := (h ! sl)\<lparr>elems := template_exp ops (elems (h ! sl)) e\<rparr>] @ new"
    using store_after_calc [of sk h sl ops e f] by auto
  have "(fst (calc_counts_image ops h sk sl e f))[sl := h ! sl] = h @ new"
    using True by (simp add: new list_update_append)
  then show ?thesis
    using True by (simp add: returned_calc nth_append Let_def)
next
  case False
  then have "calc_counts_image ops h sk sl e f = (h, Inl NoObject)"
    by (rule calc_no_object)
  then show ?thesis by simp
qed

theorem calc_counts_image_deterministic_witness:
  "returned (calc_counts_image real_ops
       ((fst (calc_counts_image real_ops
           [\<lparr>shape = [3], elems = [1, 1, 1]\<rparr>, \<lparr>shape = [3], elems = [0, 1, 2]\<rparr>] 0 1 3 (1 / 2)))
          [1 := \<lparr>shape = [3], elems = [0, 1, 2]\<rparr>]) 0 1 3 (1 / 2))
     = Inr \<lparr>shape = [3], elems = [2, 4 / 3, 4 / 5]\<rparr>"
  using calc_counts_image_deterministic [of real_ops
      "[\<lparr>shape = [3], elems = [1, 1, 1::real]\<rparr>, \<lparr>shape = [3], elems = [0, 1, 2]\<rparr>]" 0 1 3 "1 / 2"]
  by (simp add: returned_calc fov_values_def template_flat_def template_norm_def
      template_exp_def template_shifted_def on_fov_def real_ops_def)

text \<open>
  Claim C10. After the call, the caller's template array has its shape and length;
  at every position where the original value was not positive it holds the original
  value, and at every position of the field of view it holds \<open>e\<close> to the power of the
  original value minus the minimum over the field of view. Normalisation and
  flattening leave it alone: they work on an array that did not exist before the call,
  and no other array the caller holds is written.
\<close>

theorem calc_counts_image_template_frame:
  assumes "sk < length h" and "sl < length h"
  shows "length (elems (fst (calc_counts_image ops h sk sl e f) ! sl)) = length (elems (h ! sl))
       \<and> shape (fst (calc_counts_image ops h sk sl e f) ! sl) = shape (h ! sl)
       \<and> (\<forall>j < length (elems (h ! sl)).
            elems (fst (calc_counts_image ops h sk sl e f) ! sl) ! j =
              (if fl_gt0 ops (elems (h ! sl) ! j)
               then fl_pow ops e (fl_sub ops (elems (h ! sl) ! j)
                      (np_min ops (getitem h sl (np_where ops (elems (h ! sl))))))
               else elems (h ! sl) ! j))
       \<and> length h \<le> length (fst (calc_counts_image ops h sk sl e f))
       \<and> (\<forall>p < length h. p \<noteq> sl \<longrightarrow> fst (calc_counts_image ops h sk sl e f) ! p = h ! p)"
proof -
  obtain new where new: "fst (calc_counts_image ops h sk sl e f) =
      h[sl := (h ! sl)\<lparr>elems := template_exp ops (elems (h ! sl)) e\<rparr>] @ new"
    using assms store_after_calc [of sk h sl ops e f] by auto
  have "getitem h sl (np_where ops (elems (h ! sl))) = filter (fl_gt0 ops) (elems (h ! sl))"
    by (simp add: getitem_fov fov_values_same)
  then show ?thesis
    using assms by (simp add: new nth_append template_exp_length) (simp add: template_exp_map)
qed

theorem calc_counts_image_template_frame_witness:
  "elems (fst (calc_counts_image real_ops
         [\<lparr>shape = [3], elems = [1, 1, 1]\<rparr>, \<lparr>shape = [3], elems = [0, 1, 2]\<rparr>] 0 1 3 (1 / 2)) ! 1)
     = [0, 1, 3]"
  using calc_counts_image_template_frame [of 0
      "[\<lparr>shape = [3], elems = [1, 1, 1::real]\<rparr>, \<lparr>shape = [3], elems = [0, 1, 2]\<rparr>]" 1
      real_ops 3 "1 / 2"]
  by (simp add: calc_closed_form truediv_def fov_values_def template_exp_def
      template_shifted_def on_fov_def real_ops_def)

section \<open>The operator dialogue\<close>

lemma run_manual_skip:
  "length (input_parse l) \<noteq> 1 \<Longrightarrow> length (input_parse l) \<noteq> 2 \<Longrightarrow>
   run_manual ops (l # rest) e f = run_manual ops rest e f"
  by simp




section \<open>The parameter table\<close>

lemma where_tstart_Cons:
  "where_tstart ops t (r # rs) =
     (if fl_eq ops t (col_tstart r) then [0] else []) @ map Suc (where_tstart ops t rs)"
proof -
  have "[0..<Suc (length rs)] = 0 # map Suc [0..<length rs]"
    by (simp only: upt_conv_Cons [OF zero_less_Suc] map_Suc_upt)
  then show ?thesis
    by (simp add: where_tstart_def filter_map comp_def del: upt_Suc)
qed

lemma where_tstart_Nil: "where_tstart ops t [] = []"
  by (simp add: where_tstart_def)

lemma where_tstart_empty:
  "where_tstart ops t d = [] \<longleftrightarrow> \<not> column_contains ops t d"
  by (induction d) (auto simp: where_tstart_Cons where_tstart_Nil column_contains_def)

lemma where_tstart_bound: "ind \<in> set (where_tstart ops t d) \<Longrightarrow> ind < length d"
  by (simp add: where_tstart_def)


lemma upsert_present:
  "where_tstart ops t d = ind # tl1 \<Longrightarrow>
   upsert ops d t e f = d[ind := (d ! ind)\<lparr>col_exp_param := e, col_flat_param := f\<rparr>]"
proof (induction d arbitrary: ind tl1)
  case Nil
  then show ?case by (simp add: where_tstart_Nil)
next
  case (Cons r rs)
  show ?case
  proof (cases "fl_eq ops t (col_tstart r)")
    case True
    with Cons.prems show ?thesis by (simp add: where_tstart_Cons)
  next
    case False
    with Cons.prems obtain j tl2 where "where_tstart ops t rs = j # tl2" and "ind = Suc j"
      by (auto simp: where_tstart_Cons map_eq_Cons_conv)
    with Cons.IH False show ?thesis by simp
  qed
qed


lemma lookup_first:
  "where_tstart ops t d = ind # tl1 \<Longrightarrow> lookup ops d t = Some (d ! ind)"
proof (induction d arbitrary: ind tl1)
  case Nil
  then show ?case by (simp add: where_tstart_Nil)
next
  case (Cons r rs)
  show ?case
  proof (cases "fl_eq ops t (col_tstart r)")
    case True
    with Cons.prems show ?thesis by (simp add: where_tstart_Cons lookup_def)
  next
    case False
    with Cons.prems obtain j tl2 where "where_tstart ops t rs = j # tl2" and "ind = Suc j"
      by (auto simp: where_tstart_Cons map_eq_Cons_conv)
    with Cons.IH False show ?thesis by (simp add: lookup_def)
  qed
qed

lemma lookup_absent: "\<not> column_contains ops t d \<Longrightarrow> lookup ops d t = None"
  by (auto simp: lookup_def column_contains_def find_None_iff list_ex_iff)

lemma upsert_same:
  "lookup ops d t = Some r \<Longrightarrow> upsert ops d t (col_exp_param r) (col_flat_param r) = d"
  by (induction d) (auto simp: lookup_def split: if_splits)

section \<open>The orchestrator\<close>

subsection \<open>Previews and dialogue\<close>

text \<open>
  On two arrays of one shape, the template with a positive element, the call of
  \<^verbatim>\<open>calc_counts_image\<close> in the loop returns the corrected image and leaves the template
  with its field of view exponentiated.
\<close>

lemma calc_on_hdus_ok:
  assumes "shape C = shape S" and "np_where ops (elems S) \<noteq> []"
  shows "calc_on_hdus ops (Some C) (Some S) e f =
     Inr (\<lparr>shape = shape C,
           elems = map2 (fl_div ops) (elems C) (template_flat ops (elems S) e f)\<rparr>,
          S\<lparr>elems := template_exp ops (elems S) e\<rparr>)"
  using assms calc_closed_form [of 0 "[C, S]" 1 ops e f]
  by (simp add: calc_on_hdus_def np_where_empty truediv_def)

lemma np_where_some:
  assumes "x \<in> set xs" and "fl_gt0 ops x"
  shows "np_where ops xs \<noteq> []"
proof -
  obtain i where "i < length xs" "xs ! i = x"
    using assms(1) by (auto simp: in_set_conv_nth)
  then have "i \<in> set (np_where ops xs)"
    using assms(2) by (simp add: np_where_def)
  then show ?thesis by auto
qed

lemma preview_quiet:
  assumes "env_convolve env = quiet_convolve"
    and "\<And>h r. env_plot_new env h r = None"
    and "env_plot_original env hdu_sk_smooth e f = Inr rg"
    and "hdu_data hdu_sk = Some C" and "shape C = shape S" and "length (shape C) = 2"
    and "np_where ops (elems S) \<noteq> []"
  shows "preview ops env hdu_sk hdu_sk_smooth (Some S) e f =
           Inr (Some (S\<lparr>elems := template_exp ops (elems S) e\<rparr>))"
  using assms by (simp add: preview_def calc_on_hdus_ok quiet_convolve_def)

text \<open>
  Where no preview raises, the loop is the dialogue: what is proved of \<open>run_manual\<close>
  on the operator's lines holds of the loop with its previews.
\<close>

lemma fit_loop_dialogue:
  assumes "\<And>sl e f. \<exists>sl'. preview ops env hdu_sk smooth sl e f = Inr sl'"
  shows "fit_loop ops env hdu_sk smooth sl lines e f = run_manual ops lines e f"
proof (induction lines arbitrary: sl e f)
  case Nil
  obtain sl' where "preview ops env hdu_sk smooth sl e f = Inr sl'"
    using assms by blast
  then show ?case by simp
next
  case (Cons l rest)
  obtain sl' where "preview ops env hdu_sk smooth sl e f = Inr sl'"
    using assms by blast
  then show ?case
    by (simp add: Cons.IH split: option.splits)
qed



lemma run_manual_hdu_one_token:
  assumes "reaches_prompt ops env hdu_sk hdu_sl e f" and "length (input_parse l) = 1"
  shows "run_manual_hdu ops env hdu_sk hdu_sl (l # rest) e f = (Inr (e, f), rest)"
  using assms
  by (auto simp: reaches_prompt_def run_manual_hdu_def split: sum.splits)

subsection \<open>One pass over an extension\<close>

lemma sl_manual_ext_skip:
  assumes "i < length hdu_sk" and "map_of (hdu_header (hdu_sk ! i)) ''tstart'' = Some t"
    and "column_contains ops t (tb_rows d)" and "\<not> fix_redo"
  shows "sl_manual_ext ops env sl_file fix_redo hdu_sk hdu_sl i (d, w) = ((d, w), None)"
  using assms by (simp add: sl_manual_ext_def)

lemma sl_manual_ext_refit:
  assumes "i < length hdu_sk" and "i < length hdu_sl"
    and "map_of (hdu_header (hdu_sk ! i)) ''tstart'' = Some t"
    and "fix_redo \<or> \<not> column_contains ops t (tb_rows d)"
  shows "sl_manual_ext ops env sl_file fix_redo hdu_sk hdu_sl i (d, w) =
     (case call_run_manual ops env w i (hdu_sk ! i) (hdu_sl ! i)
             (fst (seed_params ops (tb_rows d) t)) (snd (seed_params ops (tb_rows d) t)) of
        (Inl e, w') \<Rightarrow> ((d, w'), Some e)
      | (Inr (e', f'), w') \<Rightarrow>
          ((d\<lparr>tb_rows := upsert_cast ops env d t e' f'\<rparr>,
            table_write w' sl_file (upsert_cast ops env d t e' f')), None))"
proof (cases "column_contains ops t (tb_rows d)")
  case True
  then obtain ind tl1 where ind: "where_tstart ops t (tb_rows d) = ind # tl1"
    using where_tstart_empty [of ops t "tb_rows d"] by (cases "where_tstart ops t (tb_rows d)") auto
  have seed: "seed_params ops (tb_rows d) t =
      (col_exp_param (tb_rows d ! ind), col_flat_param (tb_rows d ! ind))"
    by (simp add: seed_params_def lookup_first [OF ind])
  have lt: "ind < length (tb_rows d)"
    using where_tstart_bound [of ind ops t "tb_rows d"] by (simp add: ind)
  have store: "set_flat_param env (set_exp_param env d ind e') ind f' =
      d\<lparr>tb_rows := upsert_cast ops env d t e' f'\<rparr>" for e' f'
    using lt True
    by (simp add: set_flat_param_def set_exp_param_def upsert_cast_def upsert_present [OF ind])
  show ?thesis
    using assms True
    by (simp add: sl_manual_ext_def ind seed store Let_def split: prod.splits sum.splits)
next
  case False
  then have seed: "seed_params ops (tb_rows d) t = (fl_lit ops (12 / 10), fl_lit ops (4 / 10))"
    by (simp add: seed_params_def lookup_absent)
  have store: "add_row env d t e' f' = d\<lparr>tb_rows := upsert_cast ops env d t e' f'\<rparr>" for e' f'
    using False by (simp add: add_row_def upsert_cast_def)
  show ?thesis
    using assms False
    by (simp add: sl_manual_ext_def seed store Let_def split: prod.splits sum.splits)
qed

subsection \<open>The cells of a table have the types of their columns\<close>

text \<open>
  A cast to a type leaves a value of that type as it is. With that, every table
  \<^verbatim>\<open>sl_manual\<close> works on holds in each cell a value of the type of its column: the one
  it loads, the one it makes, and the one a pass over an extension leaves.
\<close>

lemma wf_table_load:
  assumes "\<And>dt x. env_astype env dt (env_astype env dt x) = env_astype env dt x"
  shows "wf_table env (table_load env rows)"
  using assms by (simp add: wf_table_def table_load_def list_all_iff)

lemma wf_new_table: "wf_table env new_table"
  by (simp add: wf_table_def new_table_def)

lemma sl_manual_ext_keeps_wf:
  assumes idem: "\<And>dt x. env_astype env dt (env_astype env dt x) = env_astype env dt x"
    and wf: "wf_table env d"
    and step: "sl_manual_ext ops env sl_file fix_redo hdu_sk hdu_sl i (d, w) = ((d', w'), r)"
  shows "wf_table env d'"
proof -
  have cast: "wf_table env (d\<lparr>tb_rows := upsert_cast ops env d t e f\<rparr>)" for t e f
  proof (cases "column_contains ops t (tb_rows d)")
    case True
    then obtain ind tl1 where ind: "where_tstart ops t (tb_rows d) = ind # tl1"
      using where_tstart_empty [of ops t "tb_rows d"]
      by (cases "where_tstart ops t (tb_rows d)") auto
    have lt: "ind < length (tb_rows d)"
      using where_tstart_bound [of ind ops t "tb_rows d"] by (simp add: ind)
    then have old: "tb_rows d ! ind \<in> set (tb_rows d)"
      by simp
    let ?new = "(tb_rows d ! ind)\<lparr>col_exp_param := env_astype env (dt_exp_param d) e,
                                     col_flat_param := env_astype env (dt_flat_param d) f\<rparr>"
    have rows: "upsert_cast ops env d t e f = (tb_rows d)[ind := ?new]"
      using True by (simp add: upsert_cast_def upsert_present [OF ind])
    let ?P = "\<lambda>r. env_astype env (dt_tstart d) (col_tstart r) = col_tstart r
                \<and> env_astype env (dt_exp_param d) (col_exp_param r) = col_exp_param r
                \<and> env_astype env (dt_flat_param d) (col_flat_param r) = col_flat_param r"
    have all: "\<forall>r\<in>set (tb_rows d). ?P r"
      using wf by (simp add: wf_table_def list_all_iff)
    then have "?P (tb_rows d ! ind)"
      using old by blast
    then have new: "?P ?new"
      by (simp add: idem)
    have "r = ?new \<or> r \<in> set (tb_rows d)" if "r \<in> set ((tb_rows d)[ind := ?new])" for r
      using that set_update_subset_insert [of "tb_rows d" ind ?new] by auto
    with all new have "\<forall>r\<in>set ((tb_rows d)[ind := ?new]). ?P r"
      by blast
    then show ?thesis
      by (simp add: wf_table_def list_all_iff rows)
  next
    case False
    then show ?thesis
      using wf idem by (simp add: wf_table_def upsert_cast_def)
  qed
  have "d' = d \<or> (\<exists>t e f. d' = d\<lparr>tb_rows := upsert_cast ops env d t e f\<rparr>)"
  proof (cases "i < length hdu_sk \<and> i < length hdu_sl")
    case False
    with step show ?thesis
      by (auto simp: sl_manual_ext_def Let_def
          split: if_splits option.splits list.splits prod.splits sum.splits)
  next
    case True
    show ?thesis
    proof (cases "map_of (hdu_header (hdu_sk ! i)) ''tstart''")
      case None
      with step True show ?thesis by (auto simp: sl_manual_ext_def)
    next
      case (Some t)
      show ?thesis
      proof (cases "fix_redo \<or> \<not> column_contains ops t (tb_rows d)")
        case True
        with step \<open>i < length hdu_sk \<and> i < length hdu_sl\<close> Some show ?thesis
          by (auto simp: sl_manual_ext_refit split: prod.splits sum.splits)
      next
        case False
        with step \<open>i < length hdu_sk \<and> i < length hdu_sl\<close> Some show ?thesis
          by (simp add: sl_manual_ext_skip)
      qed
    qed
  qed
  with wf cast show ?thesis by auto
qed

subsection \<open>Whole runs without redo\<close>

text \<open>
  With redo not requested a whole run only ever appends rows, and a run over a stack
  whose start times are all in the table leaves the world as it was.
\<close>

lemma sl_manual_ext_no_redo_extends:
  "sl_manual_ext ops env sl_file False hdu_sk hdu_sl i (d, w) = ((d', w'), r) \<Longrightarrow>
   \<exists>new. tb_rows d' = tb_rows d @ new"
  by (auto simp: sl_manual_ext_def Let_def add_row_def
      split: if_splits option.splits prod.splits sum.splits)

lemma sl_manual_loop_no_redo_extends:
  "sl_manual_loop ops env sl_file False hdu_sk hdu_sl js (d, w) = ((d', w'), r) \<Longrightarrow>
   \<exists>new. tb_rows d' = tb_rows d @ new"
proof (induction js arbitrary: d w)
  case Nil
  then show ?case by simp
next
  case (Cons i js)
  obtain d1 w1 r1 where step:
    "sl_manual_ext ops env sl_file False hdu_sk hdu_sl i (d, w) = ((d1, w1), r1)"
    by (metis surj_pair)
  then obtain new1 where d1: "tb_rows d1 = tb_rows d @ new1"
    using sl_manual_ext_no_redo_extends by blast
  show ?case
  proof (cases r1)
    case None
    with Cons.prems step
    have "sl_manual_loop ops env sl_file False hdu_sk hdu_sl js (d1, w1) = ((d', w'), r)"
      by simp
    then obtain new2 where "tb_rows d' = tb_rows d1 @ new2"
      using Cons.IH by blast
    with d1 show ?thesis by simp
  next
    case (Some e)
    with Cons.prems step d1 show ?thesis by auto
  qed
qed

lemma sl_manual_loop_all_present:
  assumes "\<And>i. i \<in> set js \<Longrightarrow> i < length hdu_sk \<and>
      (\<exists>t. map_of (hdu_header (hdu_sk ! i)) ''tstart'' = Some t
           \<and> column_contains ops t (tb_rows d))"
  shows "sl_manual_loop ops env sl_file False hdu_sk hdu_sl js (d, w) = ((d, w), None)"
  using assms
proof (induction js)
  case Nil
  then show ?case by simp
next
  case (Cons i js)
  then obtain t where "i < length hdu_sk" "map_of (hdu_header (hdu_sk ! i)) ''tstart'' = Some t"
      "column_contains ops t (tb_rows d)"
    by (metis list.set_intros(1))
  then have "sl_manual_ext ops env sl_file False hdu_sk hdu_sl i (d, w) = ((d, w), None)"
    by (simp add: sl_manual_ext_skip)
  with Cons show ?case by simp
qed

lemma sl_manual_idempotent_skip:
  assumes "w_files w sl_file = Some (ParamFile rows)"
    and "w_files w sk_image = Some (ImageFile hdu_sk)"
    and "w_files w sl_image = Some (ImageFile hdu_sl)"
    and "\<And>i. 1 \<le> i \<Longrightarrow> i < length hdu_sk \<Longrightarrow>
      \<exists>t. map_of (hdu_header (hdu_sk ! i)) ''tstart'' = Some t
          \<and> column_contains ops t (tb_rows (table_load env rows))"
  shows "sl_manual ops env w sk_image sl_image sl_file False = (w, None)"
proof -
  have "sl_manual_loop ops env sl_file False hdu_sk hdu_sl [1..<length hdu_sk]
      (table_load env rows, w) = ((table_load env rows, w), None)"
    by (rule sl_manual_loop_all_present) (use assms(4) in auto)
  then show ?thesis
    using assms(1-3) by (simp add: sl_manual_def table_read_def fits_open_def)
qed

subsection \<open>What the examples hold\<close>

lemma ex2_tstart: "map_of (hdu_header (ex2_sk ! 1)) ''tstart'' = Some 5"
  by (simp add: ex2_sk_def)

lemma ex2_len: "1 < length ex2_sk"
  by (simp add: ex2_sk_def)

lemma ex2_len_sl: "1 < length ex2_sl"
  by (simp add: ex2_sl_def)

lemma ex2_rows:
  "ex2_table = \<lparr>dt_tstart = Float64, dt_exp_param = Float64, dt_flat_param = Float64,
                 tb_rows = ex_table\<rparr>"
  by (simp add: ex2_table_def table_load_def infer_dtype_def real_env_def ex_table_def)

lemma ex2_wf: "wf_table real_env ex2_table"
  by (simp add: ex2_rows wf_table_def real_env_def ex_table_def)

lemma ex2_present: "column_contains real_ops 5 (tb_rows ex2_table)"
  by (simp add: ex2_rows column_contains_def ex_table_def real_ops_def)

lemma ex2_absent: "\<not> column_contains real_ops 5 (tb_rows new_table)"
  by (simp add: new_table_def column_contains_def)

lemma ex2_lookup:
  "lookup real_ops (tb_rows ex2_table) 5
     = Some \<lparr>col_tstart = 5, col_exp_param = 2, col_flat_param = 1 / 2\<rparr>"
  by (simp add: ex2_rows lookup_def ex_table_def real_ops_def)


lemma ex_ok: "input_parse ''ok'' = [''ok'']"
  by (simp add: input_parse_def)

lemma ex2_preview:
  assumes "x \<in> set xs" and "0 < x" and "length xs = 4"
  shows "preview real_ops real_env (ex2_sk ! 1) smooth (Some \<lparr>shape = [2, 2], elems = xs\<rparr>) e f
     = Inr (Some \<lparr>shape = [2, 2], elems = template_exp real_ops xs e\<rparr>)"
proof -
  have "fl_gt0 real_ops x"
    using assms(2) by (simp add: real_ops_def)
  then have "np_where real_ops xs \<noteq> []"
    using assms(1) by (rule np_where_some [rotated])
  then show ?thesis
    using preview_quiet [of real_env smooth e f "(0, 1)" "ex2_sk ! 1"
        "\<lparr>shape = [2, 2], elems = [1, 1, 1, 1]\<rparr>" "\<lparr>shape = [2, 2], elems = xs\<rparr>" real_ops]
    by (simp add: real_env_def ex2_sk_def)
qed

lemma ex2_reaches: "reaches_prompt real_ops real_env (ex2_sk ! 1) (ex2_sl ! 1) e f"
proof -
  have "preview real_ops real_env (ex2_sk ! 1) smooth (hdu_data (ex2_sl ! 1)) e f
     = Inr (Some \<lparr>shape = [2, 2], elems = template_exp real_ops [0, 1, 2, 1] e\<rparr>)" for smooth
    using ex2_preview [of 1 "[0, 1, 2, 1]"] by (simp add: ex2_sl_def)
  then show ?thesis
    by (simp add: reaches_prompt_def real_env_def quiet_convolve_def ex2_sk_def)
qed

lemma ex2_one_answer:
  "run_manual_hdu real_ops real_env (ex2_sk ! 1) (ex2_sl ! 1) [''ok''] e f = (Inr (e, f), [])"
  using ex2_reaches by (rule run_manual_hdu_one_token) (simp add: ex_ok)








section \<open>The claims about the orchestrator\<close>

text \<open>
  Claim C3. For an extension with start time \<open>t\<close>: if \<open>t\<close> is in the table and redo is
  not requested, the pass over the extension changes nothing: the table in memory,
  the files, the pending operator input and the record of calls and writes are as
  before, so \<^verbatim>\<open>run_manual\<close> is not called and nothing is written. If \<open>t\<close> is not in the
  table, \<^verbatim>\<open>run_manual\<close> is called on the two HDUs of the extension with the seed
  \<open>(1.2, 0.4)\<close>, and its outcome decides the pass: an exception of its previews or of
  its dialogue is raised, with the table as it was and nothing written; a returned
  pair \<open>(e', f')\<close> is added as the row \<open>(t, e', f')\<close>, each value cast to the type of its
  column, and the table is written.
\<close>

theorem sl_manual_ext_skip_or_default:
  assumes "i < length hdu_sk" and "map_of (hdu_header (hdu_sk ! i)) ''tstart'' = Some t"
  shows "(column_contains ops t (tb_rows d) \<and> \<not> fix_redo \<longrightarrow>
            sl_manual_ext ops env sl_file fix_redo hdu_sk hdu_sl i (d, w) = ((d, w), None))
       \<and> (\<not> column_contains ops t (tb_rows d) \<and> i < length hdu_sl \<longrightarrow>
            sl_manual_ext ops env sl_file fix_redo hdu_sk hdu_sl i (d, w) =
              (case run_manual_hdu ops env (hdu_sk ! i) (hdu_sl ! i) (w_stdin w)
                      (fl_lit ops (12 / 10)) (fl_lit ops (4 / 10)) of
                 (Inl e, rest) \<Rightarrow>
                   ((d, w\<lparr>w_stdin := rest,
                          w_trace := w_trace w @
                            [RunManual i (fl_lit ops (12 / 10)) (fl_lit ops (4 / 10))]\<rparr>),
                    Some e)
               | (Inr (e', f'), rest) \<Rightarrow>
                   ((add_row env d t e' f',
                     w\<lparr>w_stdin := rest,
                       w_files := (w_files w)(sl_file \<mapsto>
                         ParamFile (tb_rows (add_row env d t e' f'))),
                       w_trace := w_trace w @
                         [RunManual i (fl_lit ops (12 / 10)) (fl_lit ops (4 / 10)),
                          WroteTable sl_file (tb_rows (add_row env d t e' f'))]\<rparr>),
                    None)))"
proof (intro conjI impI)
  assume "column_contains ops t (tb_rows d) \<and> \<not> fix_redo"
  then show "sl_manual_ext ops env sl_file fix_redo hdu_sk hdu_sl i (d, w) = ((d, w), None)"
    using assms by (simp add: sl_manual_ext_skip)
next
  assume a: "\<not> column_contains ops t (tb_rows d) \<and> i < length hdu_sl"
  then have seed: "seed_params ops (tb_rows d) t = (fl_lit ops (12 / 10), fl_lit ops (4 / 10))"
    by (simp add: seed_params_def lookup_absent)
  have store: "upsert_cast ops env d t e' f' = tb_rows (add_row env d t e' f')"
      "d\<lparr>tb_rows := tb_rows (add_row env d t e' f')\<rparr> = add_row env d t e' f'" for e' f'
    using a by (simp_all add: add_row_def upsert_cast_def)
  show "sl_manual_ext ops env sl_file fix_redo hdu_sk hdu_sl i (d, w) =
      (case run_manual_hdu ops env (hdu_sk ! i) (hdu_sl ! i) (w_stdin w)
              (fl_lit ops (12 / 10)) (fl_lit ops (4 / 10)) of
         (Inl e, rest) \<Rightarrow>
           ((d, w\<lparr>w_stdin := rest,
                  w_trace := w_trace w @
                    [RunManual i (fl_lit ops (12 / 10)) (fl_lit ops (4 / 10))]\<rparr>),
            Some e)
       | (Inr (e', f'), rest) \<Rightarrow>
           ((add_row env d t e' f',
             w\<lparr>w_stdin := rest,
               w_files := (w_files w)(sl_file \<mapsto>
                 ParamFile (tb_rows (add_row env d t e' f'))),
               w_trace := w_trace w @
                 [RunManual i (fl_lit ops (12 / 10)) (fl_lit ops (4 / 10)),
                  WroteTable sl_file (tb_rows (add_row env d t e' f'))]\<rparr>),
            None))"
    using assms a
    by (simp add: sl_manual_ext_refit seed call_run_manual_def table_write_def store
        split: prod.splits sum.splits)
qed

theorem sl_manual_ext_skip_or_default_witness:
  "sl_manual_ext real_ops real_env ''p.info'' False ex2_sk ex2_sl 1 (ex2_table, ex_world [''ok''])
     = ((ex2_table, ex_world [''ok'']), None)
   \<and> sl_manual_ext real_ops real_env ''p.info'' False ex2_sk ex2_sl 1 (new_table, ex_world [''ok''])
     = ((new_table\<lparr>tb_rows :=
           [\<lparr>col_tstart = 5, col_exp_param = 6 / 5, col_flat_param = 2 / 5\<rparr>]\<rparr>,
         \<lparr>w_files = [''p.info'' \<mapsto> ParamFile
                        [\<lparr>col_tstart = 5, col_exp_param = 6 / 5, col_flat_param = 2 / 5\<rparr>]],
           w_stdin = [],
           w_trace = [RunManual 1 (6 / 5) (2 / 5),
                      WroteTable ''p.info''
                        [\<lparr>col_tstart = 5, col_exp_param = 6 / 5, col_flat_param = 2 / 5\<rparr>]]\<rparr>),
        None)"
proof -
  have lit: "fl_lit real_ops (6 / 5) = 6 / 5" "fl_lit real_ops (2 / 5) = 2 / 5"
    by (simp_all add: real_ops_def of_rat_divide)
  have row: "add_row real_env new_table 5 e f =
      new_table\<lparr>tb_rows := [\<lparr>col_tstart = 5, col_exp_param = e, col_flat_param = f\<rparr>]\<rparr>" for e f
    by (simp add: add_row_def new_table_def real_env_def)
  note skip = sl_manual_ext_skip_or_default [OF ex2_len ex2_tstart, where ops = real_ops
      and env = real_env and d = ex2_table and fix_redo = False and sl_file = "''p.info''"
      and hdu_sl = ex2_sl and w = "ex_world [''ok'']"]
  note fit = sl_manual_ext_skip_or_default [OF ex2_len ex2_tstart, where ops = real_ops
      and env = real_env and d = new_table and fix_redo = False and sl_file = "''p.info''"
      and hdu_sl = ex2_sl and w = "ex_world [''ok'']"]
  show ?thesis
    using skip fit ex2_present ex2_absent ex2_len ex2_len_sl
    by (simp add: lit ex_world_def ex2_one_answer [unfolded One_nat_def] row)
qed




text \<open>
  Claim C7. For a refit with the start time in the table and redo requested, on a
  table whose cells are of the types of their columns (as every table of
  \<^verbatim>\<open>sl_manual\<close> is, by \<open>wf_table_load\<close>, \<open>wf_new_table\<close> and \<open>sl_manual_ext_keeps_wf\<close>):
  \<^verbatim>\<open>run_manual\<close> is called with the stored parameters of the record of that start
  time; if its first prompt is reached and the operator's first answer is a single
  token, the table after the upsert is the table before it, and this table is
  written.
\<close>

theorem sl_manual_ext_redo_unchanged:
  assumes "i < length hdu_sk" and "i < length hdu_sl"
    and "map_of (hdu_header (hdu_sk ! i)) ''tstart'' = Some t"
    and "lookup ops (tb_rows d) t = Some r" and "fix_redo"
    and "wf_table env d"
    and "reaches_prompt ops env (hdu_sk ! i) (hdu_sl ! i) (col_exp_param r) (col_flat_param r)"
    and "w_stdin w = l # rest" and "length (input_parse l) = 1"
  shows "sl_manual_ext ops env sl_file fix_redo hdu_sk hdu_sl i (d, w) =
           ((d, w\<lparr>w_stdin := rest,
                  w_files := (w_files w)(sl_file \<mapsto> ParamFile (tb_rows d)),
                  w_trace := w_trace w @
                    [RunManual i (col_exp_param r) (col_flat_param r),
                     WroteTable sl_file (tb_rows d)]\<rparr>),
            None)"
proof -
  have present: "column_contains ops t (tb_rows d)"
    using assms(4) lookup_absent [of ops t "tb_rows d"] by auto
  have seed: "seed_params ops (tb_rows d) t = (col_exp_param r, col_flat_param r)"
    by (simp add: seed_params_def assms(4))
  have mem: "r \<in> set (tb_rows d)"
    using assms(4) by (auto simp: lookup_def find_Some_iff)
  then have cast: "env_astype env (dt_exp_param d) (col_exp_param r) = col_exp_param r"
      "env_astype env (dt_flat_param d) (col_flat_param r) = col_flat_param r"
    using assms(6) by (auto simp: wf_table_def list_all_iff)
  have rows: "upsert_cast ops env d t (col_exp_param r) (col_flat_param r) = tb_rows d"
    using present by (simp add: upsert_cast_def cast upsert_same [OF assms(4)])
  have run: "run_manual_hdu ops env (hdu_sk ! i) (hdu_sl ! i) (l # rest)
      (col_exp_param r) (col_flat_param r) = (Inr (col_exp_param r, col_flat_param r), rest)"
    using assms(7,9) by (rule run_manual_hdu_one_token)
  show ?thesis
    using assms(1-3,5,8) present
    by (simp add: sl_manual_ext_refit seed call_run_manual_def table_write_def run rows)
qed

theorem sl_manual_ext_redo_unchanged_witness:
  "sl_manual_ext real_ops real_env ''p.info'' True ex2_sk ex2_sl 1 (ex2_table, ex_world [''ok''])
     = ((ex2_table,
         \<lparr>w_files = [''p.info'' \<mapsto> ParamFile (tb_rows ex2_table)],
           w_stdin = [],
           w_trace = [RunManual 1 2 (1 / 2), WroteTable ''p.info'' (tb_rows ex2_table)]\<rparr>),
        None)"
proof -
  have stdin: "w_stdin (ex_world [''ok'']) = ''ok'' # []"
    by (simp add: ex_world_def)
  have one: "length (input_parse ''ok'') = 1"
    by (simp add: ex_ok)
  have reach: "reaches_prompt real_ops real_env (ex2_sk ! 1) (ex2_sl ! 1)
      (col_exp_param \<lparr>col_tstart = 5, col_exp_param = 2, col_flat_param = 1 / 2\<rparr>)
      (col_flat_param \<lparr>col_tstart = 5, col_exp_param = 2, col_flat_param = 1 / 2\<rparr>)"
    by (rule ex2_reaches)
  note th = sl_manual_ext_redo_unchanged [OF ex2_len ex2_len_sl ex2_tstart ex2_lookup _ ex2_wf
      reach stdin one, where fix_redo = True and sl_file = "''p.info''"]
  show ?thesis
    using th by (simp add: ex_world_def)
qed

section \<open>The batch step\<close>

lemma calc_on_data_spec:
  "shape C = shape S \<Longrightarrow>
   calc_on_data ops (Some C) (Some S) e f = sl_transform_spec ops C S e f"
  by (simp add: calc_on_data_def returned_calc sl_transform_spec_def)

lemma sl_apply_loop_all_ok:
  assumes "\<And>i. i \<in> set js \<Longrightarrow> sl_apply_ext ops hdu_sk hdu_sl sl_data i = Inr (g i)"
  shows "sl_apply_loop ops hdu_sk hdu_sl sl_data js acc = Inr (acc @ map g js)"
  using assms by (induction js arbitrary: acc) simp_all

lemma py_replace_suffix:
  assumes "old \<noteq> []"
    and "\<And>k. k < length p \<Longrightarrow> take (length old) (drop k (p @ old)) \<noteq> old"
  shows "py_replace old new (p @ old) = p @ new"
  using assms(2)
proof (induction p)
  case Nil
  obtain c cs where old: "old = c # cs"
    using assms(1) by (cases old) auto
  show ?case by (simp add: old)
next
  case (Cons c p)
  have "take (length old) (drop 0 ((c # p) @ old)) \<noteq> old"
    by (rule Cons.prems) simp
  moreover have "py_replace old new (p @ old) = p @ new"
  proof (rule Cons.IH)
    fix k assume "k < length p"
    then have "take (length old) (drop (Suc k) ((c # p) @ old)) \<noteq> old"
      by (intro Cons.prems) simp
    then show "take (length old) (drop k (p @ old)) \<noteq> old" by simp
  qed
  ultimately show ?case by simp
qed

lemma str_replace_lone_suffix:
  assumes "old \<noteq> []"
    and "\<And>k. k < length p \<Longrightarrow> take (length old) (drop k (p @ old)) \<noteq> old"
  shows "str_replace (p @ old) old new = p @ new"
    and "replace_suffix (p @ old) old new = p @ new"
  using assms by (simp_all add: str_replace_def py_replace_suffix replace_suffix_def)

lemma sl_apply_raise_writes_nothing:
  "sl_apply ops w sk_image sl_image sl_file = (w', Some e) \<Longrightarrow> w' = w"
  by (auto simp: sl_apply_def split: sum.splits list.splits)

lemma ex_transform:
  "sl_transform_spec real_ops \<lparr>shape = [3], elems = [1, 1, 1]\<rparr> \<lparr>shape = [3], elems = [0, 1, 2]\<rparr>
     2 (1 / 2) = Inr \<lparr>shape = [3], elems = [2, 6 / 5, 6 / 7]\<rparr>"
  by (simp add: sl_transform_spec_def fov_values_def template_flat_def template_norm_def
      template_exp_def template_shifted_def on_fov_def real_ops_def)

lemma ex_apply_ext:
  "sl_apply_ext real_ops ex_sk ex_sl ex_table 1 =
     Inr \<lparr>hdu_header = [(''tstart'', 5)],
          hdu_data = Some \<lparr>shape = [3], elems = [2, 6 / 5, 6 / 7]\<rparr>\<rparr>"
  by (simp add: sl_apply_ext_def ex_sk_def ex_sl_def ex_table_def calc_on_data_spec ex_transform)

lemma ex_apply:
  "sl_apply real_ops (ex_disk p) p ''sl.img'' ''p.info'' =
     (image_write (ex_disk p) (str_replace p ''_corr.img'' ''_corr_sl.img'')
        [\<lparr>hdu_header = [], hdu_data = None\<rparr>,
         \<lparr>hdu_header = [(''tstart'', 5)],
           hdu_data = Some \<lparr>shape = [3], elems = [2, 6 / 5, 6 / 7]\<rparr>\<rparr>], None)"
  if "p \<noteq> ''sl.img''" "p \<noteq> ''p.info''"
  using that ex_apply_ext [unfolded ex_sk_def ex_sl_def]
  by (simp add: sl_apply_def table_read_def fits_open_def ex_disk_def ex_sk_def ex_sl_def)

text \<open>
  Claim C4, as stated, has the output written to the name of the counts image with
  its suffix \<^verbatim>\<open>_corr.img\<close> replaced. The code calls \<^verbatim>\<open>str.replace\<close>, which
  replaces every occurrence: for \<^verbatim>\<open>a_corr.img_corr.img\<close> the stack is written to
  \<^verbatim>\<open>a_corr_sl.img_corr_sl.img\<close>, and nothing is written to
  \<^verbatim>\<open>a_corr.img_corr_sl.img\<close>.
\<close>

theorem sl_apply_replaces_every_occurrence:
  "snd (sl_apply real_ops (ex_disk ''a_corr.img_corr.img'') ''a_corr.img_corr.img''
          ''sl.img'' ''p.info'') = None
   \<and> replace_suffix ''a_corr.img_corr.img'' ''_corr.img'' ''_corr_sl.img''
       = ''a_corr.img_corr_sl.img''
   \<and> w_files (fst (sl_apply real_ops (ex_disk ''a_corr.img_corr.img'')
          ''a_corr.img_corr.img'' ''sl.img'' ''p.info'')) ''a_corr.img_corr_sl.img'' = None
   \<and> w_files (fst (sl_apply real_ops (ex_disk ''a_corr.img_corr.img'')
          ''a_corr.img_corr.img'' ''sl.img'' ''p.info'')) ''a_corr_sl.img_corr_sl.img''
       = Some (ImageFile
           [\<lparr>hdu_header = [], hdu_data = None\<rparr>,
            \<lparr>hdu_header = [(''tstart'', 5)],
              hdu_data = Some \<lparr>shape = [3], elems = [2, 6 / 5, 6 / 7]\<rparr>\<rparr>])"
proof -
  have name: "str_replace ''a_corr.img_corr.img'' ''_corr.img'' ''_corr_sl.img''
      = ''a_corr_sl.img_corr_sl.img''"
    by (simp add: str_replace_def)
  have suffix: "replace_suffix ''a_corr.img_corr.img'' ''_corr.img'' ''_corr_sl.img''
       = ''a_corr.img_corr_sl.img''"
    by (simp add: replace_suffix_def)
  show ?thesis
    by (simp add: ex_apply name suffix image_write_def) (simp add: ex_disk_def)
qed

text \<open>
  Claim C4, amended. Let the counts stack have \<open>n\<close> extensions beyond the first, the
  template stack at least as many, the table at least \<open>n\<close> rows, and let every
  extension \<open>i\<close> from 1 to \<open>n\<close> hold a counts array and a template array of one shape,
  the template with a positive element. Then \<open>sl_apply\<close> raises nothing and writes one
  file, overwriting what was there: a stack as long as the counts stack, whose first
  entry is the first HDU of the counts stack and whose entry \<open>i\<close> has the header of
  extension \<open>i\<close> and the transform of its two arrays with the parameters of row
  \<open>i - 1\<close>, whatever start time that row has. The file name is the name of the counts
  image with every occurrence of \<^verbatim>\<open>_corr.img\<close> replaced by \<^verbatim>\<open>_corr_sl.img\<close>; for a
  name that ends in \<^verbatim>\<open>_corr.img\<close> and holds it nowhere else, that is the name with
  the suffix replaced.
\<close>

theorem sl_apply_writes_corrected_stack:
  assumes tbl: "w_files w sl_file = Some (ParamFile sl_data)"
    and sk: "w_files w sk_image = Some (ImageFile hdu_sk)"
    and sl: "w_files w sl_image = Some (ImageFile hdu_sl)"
    and ne: "hdu_sk \<noteq> []"
    and len_sl: "length hdu_sk \<le> length hdu_sl"
    and len_tb: "length hdu_sk - 1 \<le> length sl_data"
    and ok: "\<And>i. 1 \<le> i \<Longrightarrow> i < length hdu_sk \<Longrightarrow>
        hdu_data (hdu_sk ! i) = Some (C i) \<and> hdu_data (hdu_sl ! i) = Some (S i)
        \<and> shape (C i) = shape (S i) \<and> np_where ops (elems (S i)) \<noteq> []"
  shows "\<exists>hdu_new.
      sl_apply ops w sk_image sl_image sl_file =
        (w\<lparr>w_files := (w_files w)
              (str_replace sk_image ''_corr.img'' ''_corr_sl.img'' \<mapsto> ImageFile hdu_new),
           w_trace := w_trace w @
              [WroteImage (str_replace sk_image ''_corr.img'' ''_corr_sl.img'') hdu_new]\<rparr>,
         None)
      \<and> length hdu_new = length hdu_sk
      \<and> hdu_new ! 0 = hdu_sk ! 0
      \<and> (\<forall>i. 1 \<le> i \<and> i < length hdu_sk \<longrightarrow>
            hdu_header (hdu_new ! i) = hdu_header (hdu_sk ! i)
            \<and> (\<exists>R. hdu_data (hdu_new ! i) = Some R
                 \<and> sl_transform_spec ops (C i) (S i)
                      (col_exp_param (sl_data ! (i - 1)))
                      (col_flat_param (sl_data ! (i - 1))) = Inr R))
      \<and> (\<forall>p. sk_image = p @ ''_corr.img''
              \<and> (\<forall>k<length p. take 9 (drop k sk_image) \<noteq> ''_corr.img'') \<longrightarrow>
            str_replace sk_image ''_corr.img'' ''_corr_sl.img'' = p @ ''_corr_sl.img'')"
proof -
  define R where "R i = \<lparr>shape = shape (C i),
      elems = map2 (fl_div ops) (elems (C i))
        (template_flat ops (elems (S i)) (col_exp_param (sl_data ! (i - 1)))
           (col_flat_param (sl_data ! (i - 1))))\<rparr>" for i
  define g where "g i = \<lparr>hdu_header = hdu_header (hdu_sk ! i), hdu_data = Some (R i)\<rparr>" for i
  have spec: "sl_transform_spec ops (C i) (S i) (col_exp_param (sl_data ! (i - 1)))
      (col_flat_param (sl_data ! (i - 1))) = Inr (R i)" if "1 \<le> i" "i < length hdu_sk" for i
    using ok [OF that] by (simp add: sl_transform_spec_def R_def np_where_empty)
  have ext: "sl_apply_ext ops hdu_sk hdu_sl sl_data i = Inr (g i)"
    if "i \<in> set [1..<length hdu_sk]" for i
  proof -
    from that have i: "1 \<le> i" "i < length hdu_sk" by simp_all
    then have "i < length hdu_sl" "i - 1 < length sl_data"
      using len_sl len_tb by linarith+
    then show ?thesis
      using i ok [OF i] spec [OF i]
      by (simp add: sl_apply_ext_def calc_on_data_spec g_def)
  qed
  obtain first rest where hs: "hdu_sk = first # rest"
    using ne by (cases hdu_sk) auto
  define hdu_new where "hdu_new = first # map g [1..<length hdu_sk]"
  have loop: "sl_apply_loop ops hdu_sk hdu_sl sl_data [1..<length hdu_sk]
      [\<lparr>hdu_header = hdu_header first, hdu_data = hdu_data first\<rparr>] = Inr hdu_new"
    using sl_apply_loop_all_ok [of "[1..<length hdu_sk]" ops hdu_sk hdu_sl sl_data g, OF ext]
    by (simp add: hdu_new_def)
  have run: "sl_apply ops w sk_image sl_image sl_file =
        (w\<lparr>w_files := (w_files w)
              (str_replace sk_image ''_corr.img'' ''_corr_sl.img'' \<mapsto> ImageFile hdu_new),
           w_trace := w_trace w @
              [WroteImage (str_replace sk_image ''_corr.img'' ''_corr_sl.img'') hdu_new]\<rparr>,
         None)"
    using loop
    by (simp add: sl_apply_def table_read_def fits_open_def tbl sk sl image_write_def hs)
  have len: "length hdu_new = length hdu_sk"
    by (simp add: hdu_new_def hs del: upt_Suc)
  have zero: "hdu_new ! 0 = hdu_sk ! 0"
    by (simp add: hdu_new_def hs)
  have nth: "hdu_new ! i = g i" if "1 \<le> i" "i < length hdu_sk" for i
  proof -
    from that obtain j where j: "i = Suc j" by (cases i) auto
    with that show ?thesis
      by (simp add: hdu_new_def hs del: upt_Suc)
  qed
  have "\<forall>i. 1 \<le> i \<and> i < length hdu_sk \<longrightarrow>
            hdu_header (hdu_new ! i) = hdu_header (hdu_sk ! i)
            \<and> (\<exists>R. hdu_data (hdu_new ! i) = Some R
                 \<and> sl_transform_spec ops (C i) (S i)
                      (col_exp_param (sl_data ! (i - 1)))
                      (col_flat_param (sl_data ! (i - 1))) = Inr R)"
    using nth spec by (simp add: g_def)
  moreover have "\<forall>p. sk_image = p @ ''_corr.img''
              \<and> (\<forall>k<length p. take 9 (drop k sk_image) \<noteq> ''_corr.img'') \<longrightarrow>
            str_replace sk_image ''_corr.img'' ''_corr_sl.img'' = p @ ''_corr_sl.img''"
  proof (intro allI impI, elim conjE)
    fix p
    assume eq: "sk_image = p @ ''_corr.img''"
      and no: "\<forall>k<length p. take 9 (drop k sk_image) \<noteq> ''_corr.img''"
    have "str_replace (p @ ''_corr.img'') ''_corr.img'' ''_corr_sl.img'' = p @ ''_corr_sl.img''"
    proof (rule str_replace_lone_suffix(1))
      show "''_corr.img'' \<noteq> []" by simp
    next
      fix k
      assume "k < length p"
      with no have ne: "take 9 (drop k sk_image) \<noteq> ''_corr.img''" by blast
      have l9: "length ''_corr.img'' = 9" by simp
      show "take (length ''_corr.img'') (drop k (p @ ''_corr.img'')) \<noteq> ''_corr.img''"
        unfolding l9 eq [symmetric] by (rule ne)
    qed
    then show "str_replace sk_image ''_corr.img'' ''_corr_sl.img'' = p @ ''_corr_sl.img''"
      by (simp add: eq)
  qed
  ultimately show ?thesis
    using run len zero by blast
qed

theorem sl_apply_writes_corrected_stack_witness:
  "\<exists>hdu_new.
     sl_apply real_ops (ex_disk ''sw_sk_corr.img'') ''sw_sk_corr.img'' ''sl.img'' ''p.info''
       = (image_write (ex_disk ''sw_sk_corr.img'') ''sw_sk_corr_sl.img'' hdu_new, None)
     \<and> length hdu_new = 2
     \<and> hdu_new ! 0 = \<lparr>hdu_header = [], hdu_data = None\<rparr>
     \<and> hdu_header (hdu_new ! 1) = [(''tstart'', 5)]
     \<and> hdu_data (hdu_new ! 1) = Some \<lparr>shape = [3], elems = [2, 6 / 5, 6 / 7]\<rparr>"
proof -
  have tbl: "w_files (ex_disk ''sw_sk_corr.img'') ''p.info'' = Some (ParamFile ex_table)"
    and sk: "w_files (ex_disk ''sw_sk_corr.img'') ''sw_sk_corr.img'' = Some (ImageFile ex_sk)"
    and sl: "w_files (ex_disk ''sw_sk_corr.img'') ''sl.img'' = Some (ImageFile ex_sl)"
    by (simp_all add: ex_disk_def)
  have ne: "ex_sk \<noteq> []" and len_sl: "length ex_sk \<le> length ex_sl"
    and len_tb: "length ex_sk - 1 \<le> length ex_table"
    by (simp_all add: ex_sk_def ex_sl_def ex_table_def)
  have ok: "hdu_data (ex_sk ! i) = Some \<lparr>shape = [3], elems = [1, 1, 1]\<rparr>
      \<and> hdu_data (ex_sl ! i) = Some \<lparr>shape = [3], elems = [0, 1, 2]\<rparr>
      \<and> shape \<lparr>shape = [3], elems = [1, 1, 1::real]\<rparr> = shape \<lparr>shape = [3], elems = [0, 1, 2::real]\<rparr>
      \<and> np_where real_ops (elems \<lparr>shape = [3], elems = [0, 1, 2::real]\<rparr>) \<noteq> []"
    if "1 \<le> i" "i < length ex_sk" for i
  proof -
    from that have "i = 1" by (simp add: ex_sk_def)
    then show ?thesis
      by (simp add: ex_sk_def ex_sl_def np_where_def real_ops_def upt_rec)
  qed
  have name: "str_replace ''sw_sk_corr.img'' ''_corr.img'' ''_corr_sl.img'' = ''sw_sk_corr_sl.img''"
    by (simp add: str_replace_def)
  have row: "col_exp_param (ex_table ! 0) = 2" "col_flat_param (ex_table ! 0) = 1 / 2"
    by (simp_all add: ex_table_def)
  from sl_apply_writes_corrected_stack [OF tbl sk sl ne len_sl len_tb ok]
  obtain hdu_new where
    run: "sl_apply real_ops (ex_disk ''sw_sk_corr.img'') ''sw_sk_corr.img'' ''sl.img'' ''p.info''
       = (image_write (ex_disk ''sw_sk_corr.img'') ''sw_sk_corr_sl.img'' hdu_new, None)"
    and len: "length hdu_new = length ex_sk"
    and zero: "hdu_new ! 0 = ex_sk ! 0"
    and one: "hdu_header (hdu_new ! 1) = hdu_header (ex_sk ! 1)
       \<and> (\<exists>R. hdu_data (hdu_new ! 1) = Some R
            \<and> sl_transform_spec real_ops \<lparr>shape = [3], elems = [1, 1, 1]\<rparr>
                 \<lparr>shape = [3], elems = [0, 1, 2]\<rparr> 2 (1 / 2) = Inr R)"
    by (auto simp: name image_write_def row ex_sk_def)
  then show ?thesis
    by (auto simp: ex_transform ex_sk_def)
qed

end
